theory Spec2Isabelle
  imports Complex_Main "HOL-Library.Product_Lexorder" "HOL-Library.Multiset"
begin

section \<open>Data model\<close>

text \<open>
  The program works on pandas tables. A timestamp is modelled at day resolution as the
  number of days since 1970-01-01 (the dataset has one record per city and day, and the
  aggregator reduces every timestamp to its calendar date). A float cell is a real number,
  or missing (\<open>None\<close> stands for NaN); arithmetic is exact, rounding is not modelled.
\<close>

type_synonym timestamp = int

text \<open>A daily series, as \<open>calculate_daily_aqi\<close> hands it to the forecast: columns date, aqi.\<close>

type_synonym daily_series = "(timestamp \<times> real) list"

record forecast_row =
  f_date :: timestamp
  f_aqi :: real
  lower_bound :: real
  upper_bound :: real

datatype error = ValueError | LinAlgError | IndexError | ModelError

section \<open>Calendar fields of a timestamp\<close>

text \<open>
  \<open>.dt.year\<close>, \<open>.dt.month\<close>, \<open>.dayofyear\<close> and the assembly of a date from year, month and
  day, in the proleptic Gregorian calendar, by the usual era arithmetic (400-year cycles
  of 146097 days, years counted from March).
\<close>

definition days_from_civil :: "int \<Rightarrow> int \<Rightarrow> int \<Rightarrow> timestamp" where
  "days_from_civil y m d =
     (let y' = (if m \<le> 2 then y - 1 else y);
          era = y' div 400;
          yoe = y' - era * 400;
          doy = (153 * (if m > 2 then m - 3 else m + 9) + 2) div 5 + d - 1;
          doe = yoe * 365 + yoe div 4 - yoe div 100 + doy
      in era * 146097 + doe - 719468)"

definition civil_from_days :: "timestamp \<Rightarrow> int \<times> int \<times> int" where
  "civil_from_days z =
     (let z' = z + 719468;
          era = z' div 146097;
          doe = z' - era * 146097;
          yoe = (doe - doe div 1460 + doe div 36524 - doe div 146096) div 365;
          y = yoe + era * 400;
          doy = doe - (365 * yoe + yoe div 4 - yoe div 100);
          mp = (5 * doy + 2) div 153;
          d = doy - (153 * mp + 2) div 5 + 1;
          m = (if mp < 10 then mp + 3 else mp - 9)
      in (if m \<le> 2 then y + 1 else y, m, d))"

definition year_of :: "timestamp \<Rightarrow> int" where
  "year_of z = fst (civil_from_days z)"

definition month_of :: "timestamp \<Rightarrow> int" where
  "month_of z = fst (snd (civil_from_days z))"

definition day_of :: "timestamp \<Rightarrow> int" where
  "day_of z = snd (snd (civil_from_days z))"

definition dayofyear :: "timestamp \<Rightarrow> int" where
  "dayofyear z = z - days_from_civil (year_of z) 1 1 + 1"

section \<open>Column statistics\<close>

text \<open>\<open>Series.mean()\<close>: missing cells are skipped; the mean of no value is NaN.\<close>

definition mean :: "real list \<Rightarrow> real option" where
  "mean xs = (if xs = [] then None else Some (sum_list xs / real (length xs)))"

definition dropna :: "'a option list \<Rightarrow> 'a list" where
  "dropna xs = List.map_filter id xs"

definition mean_skipna :: "real option list \<Rightarrow> real option" where
  "mean_skipna xs = mean (dropna xs)"

text \<open>\<open>Series.std()\<close>: the sample standard deviation (ddof = 1), NaN below two values.\<close>

definition std :: "real list \<Rightarrow> real option" where
  "std xs =
     (if length xs < 2 then None
      else (let mu = sum_list xs / real (length xs)
            in Some (sqrt (sum_list (map (\<lambda>x. (x - mu)\<^sup>2) xs) / real (length xs - 1)))))"

text \<open>\<open>Series.tail(k)\<close>: the last k entries (all of them when there are fewer).\<close>

definition tail :: "nat \<Rightarrow> 'a list \<Rightarrow> 'a list" where
  "tail k xs = drop (length xs - k) xs"

text \<open>
  \<open>np.polyfit(np.arange(len(y)), y, 1)[0]\<close>: the slope of the least-squares line through
  the points \<open>(0, y\<^sub>0), (1, y\<^sub>1), ...\<close>, by the normal equations. This is the exact slope;
  the library computes it in floating point and returns it with a rounding error, so a
  statement that depends on the value of the slope is made below about the forecast with the
  fitting routine as a parameter (\<open>forecast_aqi_simple_with\<close>).
\<close>

definition polyfit_slope :: "real list \<Rightarrow> real" where
  "polyfit_slope ys =
     (let n = real (length ys);
          xs = map real [0..<length ys];
          sx = sum_list xs;
          sy = sum_list ys;
          sxy = sum_list (map2 (*) xs ys);
          sxx = sum_list (map (\<lambda>x. x * x) xs)
      in (n * sxy - sx * sy) / (n * sxx - sx * sx))"

section \<open>Regularizing the daily series\<close>

text \<open>\<open>ffill\<close> carries the last seen value forward, \<open>bfill\<close> the next one backward.\<close>

fun ffill_from :: "'a option \<Rightarrow> 'a option list \<Rightarrow> 'a option list" where
  "ffill_from prev [] = []"
| "ffill_from prev (None # xs) = prev # ffill_from prev xs"
| "ffill_from prev (Some x # xs) = Some x # ffill_from (Some x) xs"

definition ffill :: "'a option list \<Rightarrow> 'a option list" where
  "ffill xs = ffill_from None xs"

definition bfill :: "'a option list \<Rightarrow> 'a option list" where
  "bfill xs = rev (ffill (rev xs))"

text \<open>
  \<open>df[['date', 'aqi']].set_index('date').sort_index()\<close>, then, when there is a row,
  \<open>resample('D').mean()\<close>: one bin per calendar day from the first to the last date, each
  holding the mean of that day's rows (NaN for a day without rows), then \<open>ffill().bfill()\<close>.
\<close>

definition sort_index :: "daily_series \<Rightarrow> daily_series" where
  "sort_index df = sort_key fst df"

definition resample_D_mean :: "daily_series \<Rightarrow> (timestamp \<times> real option) list" where
  "resample_D_mean ts =
     (case ts of [] \<Rightarrow> []
      | r # rs \<Rightarrow> map (\<lambda>d. (d, mean (map snd (filter (\<lambda>p. fst p = d) ts))))
                    [fst r .. fst (last ts)])"

definition prepare_ts :: "daily_series \<Rightarrow> (timestamp \<times> real option) list" where
  "prepare_ts df =
     (let df_ts = sort_index df
      in if length df_ts > 0
         then (let g = resample_D_mean df_ts in zip (map fst g) (bfill (ffill (map snd g))))
         else [])"

section \<open>The trend-based forecast\<close>

definition recent_mean :: "real list \<Rightarrow> real option" where
  "recent_mean ys = mean (tail (min 7 (length ys)) ys)"

definition recent_std :: "real list \<Rightarrow> real option" where
  "recent_std ys = std (tail (min 7 (length ys)) ys)"

definition recent_data :: "real list \<Rightarrow> real list" where
  "recent_data ys = tail (min 30 (length ys)) ys"

definition trend_slope :: "real list \<Rightarrow> real" where
  "trend_slope ys =
     (if length (recent_data ys) > 1 then polyfit_slope (recent_data ys) else 0)"

text \<open>
  \<open>df_ts.groupby('day_of_year')['aqi'].mean()\<close>, computed when there are at least 365
  days: a lookup from the day of the year to the mean of the days that carry it; a day of
  the year without rows is not in its index.
\<close>

definition seasonal_pattern :: "(timestamp \<times> real) list \<Rightarrow> (int \<Rightarrow> real option) option" where
  "seasonal_pattern ts =
     (if length ts \<ge> 365
      then Some (\<lambda>k. mean (map snd (filter (\<lambda>p. dayofyear (fst p) = k) ts)))
      else None)"

definition confidence_range :: "real \<Rightarrow> real option \<Rightarrow> real" where
  "confidence_range rmean rstd =
     (case rstd of Some s \<Rightarrow> s * 1.96 | None \<Rightarrow> rmean * 0.2)"

definition base_forecast :: "real \<Rightarrow> real \<Rightarrow> (int \<Rightarrow> real option) option \<Rightarrow> nat \<Rightarrow> timestamp \<Rightarrow> real" where
  "base_forecast rmean slope pat i forecast_date =
     (let b = rmean + slope * (real i + 1);
          b' = (case pat of None \<Rightarrow> b
                | Some sp \<Rightarrow> (case sp (dayofyear forecast_date) of None \<Rightarrow> b
                              | Some v \<Rightarrow> b + (v - rmean) * 0.3))
      in max 0 (min 500 b'))"

text \<open>The loop over \<open>enumerate(forecast_dates)\<close>, appending to the three lists.\<close>

fun forecast_loop ::
  "real \<Rightarrow> real option \<Rightarrow> real \<Rightarrow> (int \<Rightarrow> real option) option \<Rightarrow> nat \<Rightarrow> timestamp list \<Rightarrow>
   real list \<times> real list \<times> real list \<Rightarrow> real list \<times> real list \<times> real list" where
  "forecast_loop rmean rstd slope pat i [] acc = acc"
| "forecast_loop rmean rstd slope pat i (forecast_date # ds) (vals, lows, ups) =
     (let b = base_forecast rmean slope pat i forecast_date;
          cr = confidence_range rmean rstd
      in forecast_loop rmean rstd slope pat (Suc i) ds
           (vals @ [b], lows @ [max 0 (b - cr)], ups @ [min 500 (b + cr)]))"

text \<open>\<open>pd.date_range(start=last_date + timedelta(days=1), periods=n, freq='D')\<close>.\<close>

definition date_range :: "timestamp \<Rightarrow> nat \<Rightarrow> timestamp list" where
  "date_range start periods = map (\<lambda>i. start + int i) [0..<periods]"

text \<open>
  \<open>pd.DataFrame({'date': ..., 'aqi': ..., 'lower_bound': ..., 'upper_bound': ...})\<close>: the
  columns must have one length, or the constructor raises.
\<close>

definition forecast_frame ::
  "timestamp list \<Rightarrow> real list \<Rightarrow> real list \<Rightarrow> real list \<Rightarrow> error + forecast_row list" where
  "forecast_frame ds vals lows ups =
     (if length vals = length ds \<and> length lows = length ds \<and> length ups = length ds
      then Inr (map (\<lambda>(d, v, l, u). \<lparr>f_date = d, f_aqi = v, lower_bound = l, upper_bound = u\<rparr>)
                  (zip ds (zip vals (zip lows ups))))
      else Inl ValueError)"

text \<open>
  The body of the \<open>try\<close> block of \<open>forecast_aqi_simple\<close>; the horizon \<open>forecast_days\<close> is a
  natural number. \<open>those\<close> collects the values of the regularized column: \<open>np.polyfit\<close>
  raises on a series that still holds a NaN. Neither that branch nor the one of a window
  without a mean is reached, since a daily series of numbers regularizes to numbers and the
  window of a series of 7 days is not empty (lemmas \<open>prepare_ts_nonempty\<close> and
  \<open>recent_mean_spec\<close> below).
\<close>

definition forecast_aqi_simple_body :: "daily_series \<Rightarrow> nat \<Rightarrow> error + forecast_row list" where
  "forecast_aqi_simple_body df forecast_days =
     (let df_ts = prepare_ts df
      in if length df_ts < 7 then Inl ValueError
         else (case those (map snd df_ts) of
                 None \<Rightarrow> Inl LinAlgError
               | Some ys \<Rightarrow>
                  (case recent_mean ys of
                     None \<Rightarrow> Inl LinAlgError
                   | Some rmean \<Rightarrow>
                      (let rstd = recent_std ys;
                           slope = trend_slope ys;
                           pat = seasonal_pattern (zip (map fst df_ts) ys);
                           last_date = fst (last df_ts);
                           forecast_dates = date_range (last_date + 1) forecast_days;
                           (vals, lows, ups) =
                              forecast_loop rmean rstd slope pat 0 forecast_dates ([], [], [])
                       in forecast_frame forecast_dates vals lows ups))))"

text \<open>\<open>except Exception\<close>: every error becomes the result \<open>(None, None)\<close>.\<close>

definition forecast_aqi_simple :: "daily_series \<Rightarrow> nat \<Rightarrow> forecast_row list option" where
  "forecast_aqi_simple df forecast_days =
     (case forecast_aqi_simple_body df forecast_days of
        Inl e \<Rightarrow> None
      | Inr fc \<Rightarrow> Some fc)"

section \<open>The ARIMA forecast\<close>

text \<open>
  \<open>statsmodels\<close> is not part of the program. Its three entry points are parameters of the
  model: fitting \<open>ARIMA(series, order).fit()\<close>, \<open>fitted.forecast(steps)\<close> and
  \<open>fitted.get_forecast(steps).conf_int()\<close>; each returns \<open>None\<close> where the library raises.
\<close>

record 'm arima_lib =
  arima_fit :: "nat \<times> nat \<times> nat \<Rightarrow> (timestamp \<times> real option) list \<Rightarrow> 'm option"
  arima_forecast :: "'m \<Rightarrow> nat \<Rightarrow> real list option"
  arima_conf_int :: "'m \<Rightarrow> nat \<Rightarrow> (real \<times> real) list option"

text \<open>The nested \<open>try\<close> blocks: order (1,1,1), then (1,0,1), then (1,0,0).\<close>

definition fit_ladder :: "'m arima_lib \<Rightarrow> (timestamp \<times> real option) list \<Rightarrow> 'm option" where
  "fit_ladder lib df_ts =
     (case arima_fit lib (1, 1, 1) df_ts of
        Some fitted \<Rightarrow> Some fitted
      | None \<Rightarrow>
         (case arima_fit lib (1, 0, 1) df_ts of
            Some fitted \<Rightarrow> Some fitted
          | None \<Rightarrow> arima_fit lib (1, 0, 0) df_ts))"

text \<open>
  The body of the outer \<open>try\<close> block of \<open>forecast_aqi_arima\<close>. \<open>df_ts.index[-1]\<close> raises
  on a table without rows.
\<close>

definition forecast_aqi_arima_body ::
  "'m arima_lib \<Rightarrow> daily_series \<Rightarrow> nat \<Rightarrow> error + (forecast_row list \<times> 'm)" where
  "forecast_aqi_arima_body lib df forecast_days =
     (let df_ts = prepare_ts df
      in case fit_ladder lib df_ts of
           None \<Rightarrow> Inl ModelError
         | Some fitted \<Rightarrow>
            (case arima_forecast lib fitted forecast_days of
               None \<Rightarrow> Inl ModelError
             | Some forecast \<Rightarrow>
                (case arima_conf_int lib fitted forecast_days of
                   None \<Rightarrow> Inl ModelError
                 | Some forecast_conf_int \<Rightarrow>
                    (if df_ts = [] then Inl IndexError
                     else (let last_date = fst (last df_ts);
                               forecast_dates = date_range (last_date + 1) forecast_days
                           in case forecast_frame forecast_dates forecast
                                     (map fst forecast_conf_int) (map snd forecast_conf_int) of
                                Inl e \<Rightarrow> Inl e
                              | Inr forecast_df \<Rightarrow> Inr (forecast_df, fitted))))))"

text \<open>
  \<open>forecast_aqi_arima\<close> returns the pair of the forecast and the fitted model; the pair
  \<open>(None, None)\<close> of a failure is the result \<open>None\<close> here, and a forecast of the simple
  method comes with no model. \<open>ARIMA_AVAILABLE\<close> is the first argument.
\<close>

definition forecast_aqi_arima ::
  "bool \<Rightarrow> 'm arima_lib \<Rightarrow> daily_series \<Rightarrow> nat \<Rightarrow> (forecast_row list \<times> 'm option) option" where
  "forecast_aqi_arima ARIMA_AVAILABLE lib df forecast_days =
     (if \<not> ARIMA_AVAILABLE
      then map_option (\<lambda>fc. (fc, None)) (forecast_aqi_simple df forecast_days)
      else (case forecast_aqi_arima_body lib df forecast_days of
              Inr (forecast_df, fitted) \<Rightarrow> Some (forecast_df, Some fitted)
            | Inl e \<Rightarrow> map_option (\<lambda>fc. (fc, None)) (forecast_aqi_simple df forecast_days)))"

section \<open>The forecast with the fitting routine as a parameter\<close>

text \<open>
  The same functions with \<open>np.polyfit(x, y, 1)[0]\<close> as the parameter \<open>fit\<close>, a function of the
  values of the trend window: what it returns is its business, as it is for \<open>statsmodels\<close>.
  With \<open>polyfit_slope\<close> for \<open>fit\<close> they are the functions above (lemma
  \<open>forecast_aqi_arima_with_exact\<close> below).
\<close>

definition trend_slope_with :: "(real list \<Rightarrow> real) \<Rightarrow> real list \<Rightarrow> real" where
  "trend_slope_with fit ys =
     (if length (recent_data ys) > 1 then fit (recent_data ys) else 0)"

definition forecast_aqi_simple_body_with ::
  "(real list \<Rightarrow> real) \<Rightarrow> daily_series \<Rightarrow> nat \<Rightarrow> error + forecast_row list" where
  "forecast_aqi_simple_body_with fit df forecast_days =
     (let df_ts = prepare_ts df
      in if length df_ts < 7 then Inl ValueError
         else (case those (map snd df_ts) of
                 None \<Rightarrow> Inl LinAlgError
               | Some ys \<Rightarrow>
                  (case recent_mean ys of
                     None \<Rightarrow> Inl LinAlgError
                   | Some rmean \<Rightarrow>
                      (let rstd = recent_std ys;
                           slope = trend_slope_with fit ys;
                           pat = seasonal_pattern (zip (map fst df_ts) ys);
                           last_date = fst (last df_ts);
                           forecast_dates = date_range (last_date + 1) forecast_days;
                           (vals, lows, ups) =
                              forecast_loop rmean rstd slope pat 0 forecast_dates ([], [], [])
                       in forecast_frame forecast_dates vals lows ups))))"

definition forecast_aqi_simple_with ::
  "(real list \<Rightarrow> real) \<Rightarrow> daily_series \<Rightarrow> nat \<Rightarrow> forecast_row list option" where
  "forecast_aqi_simple_with fit df forecast_days =
     (case forecast_aqi_simple_body_with fit df forecast_days of
        Inl e \<Rightarrow> None
      | Inr fc \<Rightarrow> Some fc)"

definition forecast_aqi_arima_with ::
  "(real list \<Rightarrow> real) \<Rightarrow> bool \<Rightarrow> 'm arima_lib \<Rightarrow> daily_series \<Rightarrow> nat \<Rightarrow>
   (forecast_row list \<times> 'm option) option" where
  "forecast_aqi_arima_with fit ARIMA_AVAILABLE lib df forecast_days =
     (if \<not> ARIMA_AVAILABLE
      then map_option (\<lambda>fc. (fc, None)) (forecast_aqi_simple_with fit df forecast_days)
      else (case forecast_aqi_arima_body lib df forecast_days of
              Inr (forecast_df, fitted) \<Rightarrow> Some (forecast_df, Some fitted)
            | Inl e \<Rightarrow>
                map_option (\<lambda>fc. (fc, None)) (forecast_aqi_simple_with fit df forecast_days)))"

section \<open>Tables and the cached dataset\<close>

text \<open>
  A row of the normalized dataset: the columns \<open>date\<close>, \<open>city\<close>, \<open>aqi\<close> and the date
  components that \<open>load_full_dataset\<close> adds. A missing city or AQI cell is \<open>None\<close>.
\<close>

record row =
  date :: timestamp
  city :: "string option"
  aqi :: "real option"
  year :: int
  month :: int
  day :: int

type_synonym table = "row list"

text \<open>
  Tables are objects: a variable holds a reference, and two variables can hold the same
  one. The state is the list of the table objects allocated so far, a reference being a
  position in it, and the module variable \<open>_data_cache\<close>.
\<close>

record pystate =
  heap :: "table list"
  data_cache :: "nat option"

definition new_table :: "table \<Rightarrow> pystate \<Rightarrow> nat \<times> pystate" where
  "new_table t s = (length (heap s), s\<lparr>heap := heap s @ [t]\<rparr>)"

definition get_table :: "nat \<Rightarrow> pystate \<Rightarrow> table option" where
  "get_table r s = (if r < length (heap s) then Some (heap s ! r) else None)"

definition set_table :: "nat \<Rightarrow> table \<Rightarrow> pystate \<Rightarrow> pystate" where
  "set_table r t s = s\<lparr>heap := (heap s)[r := t]\<rparr>"

text \<open>
  \<open>load_full_dataset\<close>: the cached table when there is one; otherwise the file is read and
  normalized, and the new table is cached. Reading and normalizing the file is outside the
  model: \<open>csv\<close> is the table it yields, \<open>None\<close> when a step of it raises (the function then
  returns \<open>None\<close>).
\<close>

definition load_full_dataset :: "table option \<Rightarrow> pystate \<Rightarrow> nat option \<times> pystate" where
  "load_full_dataset csv s =
     (case data_cache s of
        Some r \<Rightarrow> (Some r, s)
      | None \<Rightarrow>
         (case csv of
            None \<Rightarrow> (None, s)
          | Some df \<Rightarrow> (let (r, s') = new_table df s in (Some r, s'\<lparr>data_cache := Some r\<rparr>))))"

section \<open>The series preparer\<close>

text \<open>
  \<open>str.strip()\<close> and \<open>str.lower()\<close>. A string is a list of code points below 256 (the
  Latin-1 range of Unicode); a string with a character beyond it is outside the model. In
  that range the white space that \<open>strip\<close> removes is the code points 9 to 13, 28 to 32,
  133 (next line) and 160 (no-break space), and \<open>lower\<close> moves the letters A to Z (65 to
  90) and the capital letters 192 to 222, the multiplication sign 215 excepted, up by 32.
\<close>

definition isspace :: "char \<Rightarrow> bool" where
  "isspace ch = ((of_char ch :: nat) \<in> {9, 10, 11, 12, 13, 28, 29, 30, 31, 32, 133, 160})"

definition lower_char :: "char \<Rightarrow> char" where
  "lower_char ch =
     (let k = (of_char ch :: nat)
      in if (65 \<le> k \<and> k \<le> 90) \<or> (192 \<le> k \<and> k \<le> 222 \<and> k \<noteq> 215)
         then char_of (k + 32) else ch)"

definition str_strip :: "string \<Rightarrow> string" where
  "str_strip s = rev (dropWhile isspace (rev (dropWhile isspace s)))"

definition str_lower :: "string \<Rightarrow> string" where
  "str_lower s = map lower_char s"

text \<open>
  The mask \<open>df['city'].str.strip().str.lower() == city.strip().lower()\<close>; a row without a
  city compares unequal.
\<close>

definition city_mask :: "string \<Rightarrow> row \<Rightarrow> bool" where
  "city_mask c r =
     (case city r of
        None \<Rightarrow> False
      | Some name \<Rightarrow> str_lower (str_strip name) = str_lower (str_strip c))"

text \<open>
  The test \<open>city and city != 'All Cities' and 'city' in df.columns\<close>: \<open>None\<close> and the
  empty string are false in Python, and the normalized table always has a city column.
\<close>

definition city_filter_applies :: "string option \<Rightarrow> bool" where
  "city_filter_applies c =
     (case c of None \<Rightarrow> False | Some name \<Rightarrow> name \<noteq> [] \<and> name \<noteq> ''All Cities'')"

text \<open>
  \<open>df.groupby('city')['aqi'].ffill()\<close>: within the rows of one city a missing value takes
  the last value seen in that city; rows without a city are in no group and come out
  missing. \<open>seen\<close> holds the last value of each city.
\<close>

fun groupby_ffill_from :: "(string \<Rightarrow> real option) \<Rightarrow> table \<Rightarrow> real option list" where
  "groupby_ffill_from seen [] = []"
| "groupby_ffill_from seen (r # rs) =
     (case city r of
        None \<Rightarrow> None # groupby_ffill_from seen rs
      | Some name \<Rightarrow>
         (case aqi r of
            Some v \<Rightarrow> Some v # groupby_ffill_from (seen(name := Some v)) rs
          | None \<Rightarrow> seen name # groupby_ffill_from seen rs))"

definition groupby_city_ffill :: "table \<Rightarrow> real option list" where
  "groupby_city_ffill df = groupby_ffill_from (\<lambda>name. None) df"

definition fillna :: "real option \<Rightarrow> real option list \<Rightarrow> real option list" where
  "fillna m xs = map (\<lambda>x. case x of None \<Rightarrow> m | Some v \<Rightarrow> Some v) xs"

text \<open>\<open>df['aqi'] = values\<close>: the column is replaced, row by row.\<close>

definition assign_aqi :: "table \<Rightarrow> real option list \<Rightarrow> table" where
  "assign_aqi df vals = map (\<lambda>(r, v). r\<lparr>aqi := v\<rparr>) (zip df vals)"

text \<open>
  \<open>drop_duplicates(subset=['city', 'date'], keep='first')\<close>: a row is dropped when an
  earlier row has its city and date (two missing cities count as equal).
\<close>

fun drop_duplicates_from :: "(string option \<times> timestamp) list \<Rightarrow> table \<Rightarrow> table" where
  "drop_duplicates_from seen [] = []"
| "drop_duplicates_from seen (r # rs) =
     (if (city r, date r) \<in> set seen then drop_duplicates_from seen rs
      else r # drop_duplicates_from ((city r, date r) # seen) rs)"

definition drop_duplicates :: "table \<Rightarrow> table" where
  "drop_duplicates df = drop_duplicates_from [] df"

text \<open>
  \<open>sort_values('date')\<close>. The sort of pandas is not stable: rows of one date come out in
  an order that is not specified. The stable sort here is one of the orders it can give;
  the statements below use of the result only that it is sorted by date and has the same
  rows, each as often as before.
\<close>

definition sort_values_date :: "table \<Rightarrow> table" where
  "sort_values_date df = sort_key date df"

text \<open>
  The part of \<open>load_and_preprocess_data\<close> after the city filter, on the table object \<open>r\<close>
  with the rows \<open>df\<close>: the two assignments \<open>df['aqi'] = ...\<close> write into that object;
  \<open>drop_duplicates\<close>, \<open>sort_values\<close> and \<open>reset_index\<close> make new tables, of which the last
  is returned.
\<close>

definition filled_rows :: "table \<Rightarrow> table" where
  "filled_rows df =
     (let df1 = assign_aqi df (bfill (groupby_city_ffill df))
      in assign_aqi df1 (fillna (mean_skipna (map aqi df1)) (map aqi df1)))"

definition fill_and_finish :: "nat \<Rightarrow> table \<Rightarrow> pystate \<Rightarrow> nat option \<times> pystate" where
  "fill_and_finish r df s =
     (let s1 = set_table r (filled_rows df) s;
          (r', s2) = new_table (sort_values_date (drop_duplicates (filled_rows df))) s1
      in (Some r', s2))"

text \<open>
  \<open>load_and_preprocess_data\<close>. Without a city filter \<open>df\<close> stays the object that
  \<open>load_full_dataset\<close> returned, which is the cached one; with a filter it is the copy
  \<open>df[mask].copy()\<close>.
\<close>

definition filter_city :: "string \<Rightarrow> nat \<Rightarrow> table \<Rightarrow> pystate \<Rightarrow> nat option \<times> pystate" where
  "filter_city name r df s =
     (let (r', s') = new_table (filter (city_mask name) df) s
      in if length (filter (city_mask name) df) = 0 then (None, s')
         else fill_and_finish r' (filter (city_mask name) df) s')"

definition load_and_preprocess_data ::
  "table option \<Rightarrow> string option \<Rightarrow> pystate \<Rightarrow> nat option \<times> pystate" where
  "load_and_preprocess_data csv c s =
     (case load_full_dataset csv s of
        (None, s1) \<Rightarrow> (None, s1)
      | (Some r, s1) \<Rightarrow>
         (case get_table r s1 of
            None \<Rightarrow> (None, s1)
          | Some df \<Rightarrow>
             (case c of
                Some name \<Rightarrow>
                  if city_filter_applies c then filter_city name r df s1
                  else fill_and_finish r df s1
              | None \<Rightarrow> fill_and_finish r df s1)))"

section \<open>The aggregator\<close>

text \<open>
  \<open>calculate_daily_aqi\<close>: \<open>groupby(df['date'].dt.date)['aqi'].mean()\<close> has one row per
  date of the table, in ascending order, with the mean of the values present on that date.
  The function reads the table \<open>r\<close> and builds new frames only.
\<close>

definition daily_frame :: "table \<Rightarrow> (timestamp \<times> real option) list" where
  "daily_frame df =
     map (\<lambda>d. (d, mean_skipna (map aqi (filter (\<lambda>r. date r = d) df))))
       (sort (remdups (map date df)))"

definition calculate_daily_aqi ::
  "nat \<Rightarrow> pystate \<Rightarrow> (timestamp \<times> real option) list option \<times> pystate" where
  "calculate_daily_aqi r s =
     (case get_table r s of
        None \<Rightarrow> (None, s)
      | Some df \<Rightarrow> (Some (daily_frame df), s))"

text \<open>
  \<open>calculate_monthly_aqi\<close>: the copy \<open>df_copy\<close> gets the columns year and month of its
  dates; \<open>groupby(['year', 'month'])['aqi'].mean()\<close> has one row per pair, in ascending
  order; the date of a row is assembled from its year, its month and day 1; the rows are
  sorted by that date.
\<close>

definition with_year_month :: "table \<Rightarrow> table" where
  "with_year_month df = map (\<lambda>r. r\<lparr>year := year_of (date r), month := month_of (date r)\<rparr>) df"

definition monthly_frame :: "table \<Rightarrow> (timestamp \<times> real option) list" where
  "monthly_frame df_copy =
     (let groups = map (\<lambda>k. (k, mean_skipna (map aqi (filter (\<lambda>r. (year r, month r) = k) df_copy))))
                     (sort (remdups (map (\<lambda>r. (year r, month r)) df_copy)));
          monthly_aqi = map (\<lambda>((y, m), a). (days_from_civil y m 1, a)) groups
      in sort_key fst monthly_aqi)"

definition calculate_monthly_aqi ::
  "nat \<Rightarrow> pystate \<Rightarrow> (timestamp \<times> real option) list option \<times> pystate" where
  "calculate_monthly_aqi r s =
     (case get_table r s of
        None \<Rightarrow> (None, s)
      | Some df \<Rightarrow>
         (let (r', s1) = new_table df s;
              s2 = set_table r' (with_year_month df) s1
          in (Some (monthly_frame (with_year_month df)), s2)))"

section \<open>The fallback formula as the specification words it\<close>

text \<open>
  The specification's description of the deterministic fallback, over a regularized series
  \<open>ts\<close> of dates and values: the last \<open>min(k, N)\<close> values, the arithmetic mean, the sample
  standard deviation, and for step \<open>i\<close> the point forecast
  \<open>recent_mean + trend_slope * (i + 1)\<close>, plus \<open>0.3 * (seasonal_pattern[day_of_year] - recent_mean)\<close>
  when there are at least 365 days and the day of the year of the target date occurs in the
  history, clamped to \<open>[0, 500]\<close>.
\<close>

definition spec_last :: "nat \<Rightarrow> real list \<Rightarrow> real list" where
  "spec_last k ys = rev (take (min k (length ys)) (rev ys))"

definition spec_mean :: "real list \<Rightarrow> real" where
  "spec_mean zs = sum_list zs / real (length zs)"

definition spec_sample_std :: "real list \<Rightarrow> real" where
  "spec_sample_std zs = sqrt (sum_list (map (\<lambda>z. (z - spec_mean zs)\<^sup>2) zs) / (real (length zs) - 1))"

definition spec_same_day_of_year :: "(timestamp \<times> real) list \<Rightarrow> timestamp \<Rightarrow> real list" where
  "spec_same_day_of_year ts target =
     map snd (filter (\<lambda>(d, v). dayofyear d = dayofyear target) ts)"

definition spec_point :: "(timestamp \<times> real) list \<Rightarrow> nat \<Rightarrow> real" where
  "spec_point ts i =
     (let ys = map snd ts;
          rmean = spec_mean (spec_last 7 ys);
          target = fst (last ts) + 1 + int i;
          same = spec_same_day_of_year ts target;
          seasonal = (if length ys \<ge> 365 \<and> same \<noteq> [] then 0.3 * (spec_mean same - rmean) else 0)
      in max 0 (min 500 (rmean + trend_slope ys * (real i + 1) + seasonal)))"

definition spec_lower :: "(timestamp \<times> real) list \<Rightarrow> nat \<Rightarrow> real" where
  "spec_lower ts i = max 0 (spec_point ts i - 1.96 * spec_sample_std (spec_last 7 (map snd ts)))"

definition spec_upper :: "(timestamp \<times> real) list \<Rightarrow> nat \<Rightarrow> real" where
  "spec_upper ts i = min 500 (spec_point ts i + 1.96 * spec_sample_std (spec_last 7 (map snd ts)))"

section \<open>Example inputs\<close>

text \<open>
  A stand-in for a fitted model: every order fits, the point forecast is 10 at every
  step and the 95% interval is \<open>[-20, 40]\<close>.
\<close>

definition example_lib :: "unit arima_lib" where
  "example_lib =
     \<lparr>arima_fit = (\<lambda>order ts. Some ()),
      arima_forecast = (\<lambda>fitted steps. Some (replicate steps 10)),
      arima_conf_int = (\<lambda>fitted steps. Some (replicate steps (-20, 40)))\<rparr>"

text \<open>
  A fitted model that returns the given point forecasts and the given bounds of the 95%
  interval, whatever they are.
\<close>

definition fitted_lib :: "real list \<Rightarrow> (real \<times> real) list \<Rightarrow> unit arima_lib" where
  "fitted_lib forecast conf_int =
     \<lparr>arima_fit = (\<lambda>order ts. Some ()),
      arima_forecast = (\<lambda>fitted steps. Some forecast),
      arima_conf_int = (\<lambda>fitted steps. Some conf_int)\<rparr>"



text \<open>
  Rows of a normalized dataset, all of 2020-01-01 (day 18262) but the last: one of Delhi,
  one of Mumbai, one without a city, and one of Delhi on 2020-02-15 (day 18307).
\<close>

definition delhi_row :: row where
  "delhi_row = \<lparr>date = 18262, city = Some ''Delhi'', aqi = Some 100, year = 2020, month = 1, day = 1\<rparr>"

definition mumbai_row :: row where
  "mumbai_row = \<lparr>date = 18262, city = Some ''Mumbai'', aqi = Some 80, year = 2020, month = 1, day = 1\<rparr>"

definition nocity_row :: row where
  "nocity_row = \<lparr>date = 18262, city = None, aqi = Some 50, year = 2020, month = 1, day = 1\<rparr>"

definition delhi_feb_row :: row where
  "delhi_feb_row = \<lparr>date = 18307, city = Some ''Delhi'', aqi = Some 60, year = 2020, month = 2, day = 15\<rparr>"

text \<open>A state in which the dataset has been loaded: one table object, which is the cache.\<close>

definition loaded :: "table \<Rightarrow> pystate" where
  "loaded df = \<lparr>heap = [df], data_cache = Some 0\<rparr>"

section \<open>Properties of filling and regularizing\<close>

lemma length_ffill_from: "length (ffill_from p xs) = length xs"
  by (induction p xs rule: ffill_from.induct) auto

lemma ffill_from_Some_no_None: "None \<notin> set (ffill_from (Some v) xs)"
  by (induction "Some v" xs arbitrary: v rule: ffill_from.induct) auto

lemma ffill_from_id: "None \<notin> set xs \<Longrightarrow> ffill_from p xs = xs"
  by (induction p xs rule: ffill_from.induct) auto

lemma ffill_head_Some: "None \<notin> set (ffill (Some v # xs))"
  by (simp add: ffill_def ffill_from_Some_no_None)

lemma bfill_id: "None \<notin> set xs \<Longrightarrow> bfill xs = xs"
  by (simp add: bfill_def ffill_def ffill_from_id)

lemma length_ffill: "length (ffill xs) = length xs"
  by (simp add: ffill_def length_ffill_from)

lemma length_bfill: "length (bfill xs) = length xs"
  by (simp add: bfill_def length_ffill)

lemma no_None_map_Some: "None \<notin> set xs \<Longrightarrow> \<exists>ys. xs = map Some ys"
proof (induction xs)
  case Nil
  then show ?case by simp
next
  case (Cons a xs)
  then obtain ys where "xs = map Some ys" by auto
  moreover from Cons.prems obtain y where "a = Some y" by (cases a) auto
  ultimately have "a # xs = map Some (y # ys)" by simp
  show ?case by (rule exI[of _ "y # ys"]) fact
qed

lemma those_Some_map: "those xs = Some ys \<Longrightarrow> xs = map Some ys"
  by (induction xs arbitrary: ys) (auto split: option.splits)

lemma those_map_Some: "those (map Some ys) = Some ys"
  by (induction ys) auto

lemma sort_index_sorted: "sorted (map fst (sort_index df))"
  by (simp add: sort_index_def)

lemma set_sort_index: "set (sort_index df) = set df"
  by (simp add: sort_index_def)

lemma length_sort_index: "length (sort_index df) = length df"
  by (simp add: sort_index_def)

lemma sorted_hd_Min:
  fixes xs :: "int list"
  assumes "sorted xs" "xs \<noteq> []"
  shows "hd xs = Min (set xs)"
proof -
  have "\<forall>x\<in>set xs. hd xs \<le> x"
    using assms by (cases xs) auto
  moreover have "hd xs \<in> set xs" using assms by simp
  ultimately show ?thesis by (intro Min_eqI[symmetric]) auto
qed

lemma sorted_last_Max:
  fixes xs :: "int list"
  assumes "sorted xs" "xs \<noteq> []"
  shows "last xs = Max (set xs)"
proof -
  have "\<forall>x\<in>set xs. x \<le> last xs"
  proof
    fix x assume "x \<in> set xs"
    then obtain i where i: "i < length xs" "xs ! i = x" by (auto simp: in_set_conv_nth)
    then have "xs ! i \<le> xs ! (length xs - 1)"
      using assms by (intro sorted_nth_mono) auto
    then show "x \<le> last xs" using i assms by (simp add: last_conv_nth)
  qed
  moreover have "last xs \<in> set xs" using assms by simp
  ultimately show ?thesis by (intro Max_eqI[symmetric]) auto
qed

lemma map_fst_resample:
  "ts \<noteq> [] \<Longrightarrow> map fst (resample_D_mean ts) = [fst (hd ts) .. fst (last ts)]"
  by (cases ts) (simp_all add: resample_D_mean_def o_def)

lemma map_snd_resample_head:
  assumes "ts \<noteq> []" "sorted (map fst ts)"
  shows "\<exists>v rest. map snd (resample_D_mean ts) = Some v # rest"
proof -
  obtain r rs where ts: "ts = r # rs" using assms(1) by (cases ts) auto
  have "hd (map fst ts) = fst r" "last (map fst ts) = fst (last ts)"
    using ts by (simp_all add: last_map)
  moreover have "Min (set (map fst ts)) \<le> Max (set (map fst ts))"
    using assms(1) by (intro Min_le Max_in) auto
  ultimately have "fst r \<le> fst (last ts)"
    using sorted_last_Max[OF assms(2)] sorted_hd_Min[OF assms(2)] assms(1) by simp
  then have up: "[fst r .. fst (last ts)] = fst r # [fst r + 1 .. fst (last ts)]"
    by (simp add: upto_rec1)
  have "filter (\<lambda>p. fst p = fst r) ts \<noteq> []"
    by (simp add: ts)
  then obtain v where "mean (map snd (filter (\<lambda>p. fst p = fst r) ts)) = Some v"
    by (simp add: mean_def)
  then show ?thesis
    unfolding resample_D_mean_def ts list.case using up ts by simp
qed

lemma prepare_ts_Nil: "prepare_ts [] = []"
  by (simp add: prepare_ts_def sort_index_def)

lemma prepare_ts_nonempty:
  assumes "df \<noteq> []"
  shows "\<exists>ys. prepare_ts df = zip [Min (fst ` set df) .. Max (fst ` set df)] (map Some ys)
            \<and> length ys = length [Min (fst ` set df) .. Max (fst ` set df)]"
proof -
  let ?ts = "sort_index df"
  let ?g = "resample_D_mean ?ts"
  have ne: "?ts \<noteq> []" using assms length_sort_index[of df] by auto
  have srt: "sorted (map fst ?ts)" by (rule sort_index_sorted)
  have "hd (map fst ?ts) = Min (set (map fst ?ts))" "last (map fst ?ts) = Max (set (map fst ?ts))"
    using sorted_hd_Min[OF srt] sorted_last_Max[OF srt] ne by simp_all
  then have ends: "fst (hd ?ts) = Min (fst ` set df)" "fst (last ?ts) = Max (fst ` set df)"
    using ne by (simp_all add: hd_map last_map set_sort_index)
  have dates: "map fst ?g = [Min (fst ` set df) .. Max (fst ` set df)]"
    using map_fst_resample[OF ne] ends by simp
  obtain v rest where hd: "map snd ?g = Some v # rest"
    using map_snd_resample_head[OF ne srt] by auto
  have "None \<notin> set (ffill (map snd ?g))"
    unfolding hd by (rule ffill_head_Some)
  then obtain ys where ys: "ffill (map snd ?g) = map Some ys"
    using no_None_map_Some by auto
  then have b: "bfill (ffill (map snd ?g)) = map Some ys"
    by (simp add: bfill_id)
  have "length ys = length (map snd ?g)"
    using ys length_ffill[of "map snd ?g"] by (metis length_map)
  then have len: "length ys = length [Min (fst ` set df) .. Max (fst ` set df)]"
    using dates by (metis length_map)
  have "prepare_ts df = zip (map fst ?g) (bfill (ffill (map snd ?g)))"
    using ne by (simp add: prepare_ts_def Let_def)
  then show ?thesis using dates b len by auto
qed

lemma forecast_loop_closed:
  "forecast_loop rm rs sl pat i ds (vals, lows, ups) =
     (vals @ map2 (\<lambda>j d. base_forecast rm sl pat j d) [i..<i + length ds] ds,
      lows @ map2 (\<lambda>j d. max 0 (base_forecast rm sl pat j d - confidence_range rm rs)) [i..<i + length ds] ds,
      ups @ map2 (\<lambda>j d. min 500 (base_forecast rm sl pat j d + confidence_range rm rs)) [i..<i + length ds] ds)"
proof (induction ds arbitrary: i vals lows ups)
  case Nil
  then show ?case by simp
next
  case (Cons d ds)
  have "[i..<i + length (d # ds)] = i # [Suc i..<Suc i + length ds]"
    by (simp add: upt_rec)
  then show ?case using Cons.IH[of "Suc i"] by (simp add: Let_def)
qed

section \<open>The trend-based forecast in closed form\<close>

lemma length_date_range: "length (date_range s n) = n"
  by (simp add: date_range_def)

lemma nth_date_range: "i < n \<Longrightarrow> date_range s n ! i = s + int i"
  by (simp add: date_range_def)

lemma forecast_frame_loop:
  "(case forecast_loop rm rs sl pat 0 (date_range s n) ([], [], []) of
      (vals, lows, ups) \<Rightarrow> forecast_frame (date_range s n) vals lows ups) =
   Inr (map (\<lambda>i. \<lparr>f_date = s + int i,
                   f_aqi = base_forecast rm sl pat i (s + int i),
                   lower_bound = max 0 (base_forecast rm sl pat i (s + int i) - confidence_range rm rs),
                   upper_bound = min 500 (base_forecast rm sl pat i (s + int i) + confidence_range rm rs)\<rparr>)
           [0..<n])"
  unfolding forecast_loop_closed
  by (simp add: forecast_frame_def length_date_range)
     (rule nth_equalityI; simp add: length_date_range nth_date_range)

lemma tail_nonempty: "0 < k \<Longrightarrow> xs \<noteq> [] \<Longrightarrow> tail k xs \<noteq> []"
  by (cases xs) (auto simp: tail_def)

lemma length_tail: "length (tail k xs) = min k (length xs)"
  by (simp add: tail_def)

lemma recent_mean_Some:
  "ys \<noteq> [] \<Longrightarrow> \<exists>rm. recent_mean ys = Some rm"
  using tail_nonempty[of "min 7 (length ys)" ys] by (simp add: recent_mean_def mean_def)

lemma simple_body_short:
  "length (prepare_ts df) < 7 \<Longrightarrow> forecast_aqi_simple_body df n = Inl ValueError"
  by (simp add: forecast_aqi_simple_body_def)

lemma simple_body_long:
  assumes p: "prepare_ts df = zip ds (map Some ys)"
    and len: "length ys = length ds" and seven: "7 \<le> length ds"
    and rm: "recent_mean ys = Some rm"
  shows "forecast_aqi_simple_body df n =
     Inr (map (\<lambda>i. \<lparr>f_date = last ds + 1 + int i,
         f_aqi = base_forecast rm (trend_slope ys) (seasonal_pattern (zip ds ys)) i (last ds + 1 + int i),
         lower_bound = max 0 (base_forecast rm (trend_slope ys) (seasonal_pattern (zip ds ys)) i
                                (last ds + 1 + int i) - confidence_range rm (recent_std ys)),
         upper_bound = min 500 (base_forecast rm (trend_slope ys) (seasonal_pattern (zip ds ys)) i
                                (last ds + 1 + int i) + confidence_range rm (recent_std ys))\<rparr>)
       [0..<n])"
proof -
  have l7: "\<not> length (prepare_ts df) < 7" using p len seven by simp
  have snd: "map snd (prepare_ts df) = map Some ys" using p len by simp
  have fst: "map fst (prepare_ts df) = ds" using p len by simp
  have ne: "prepare_ts df \<noteq> []" using l7 by auto
  have "fst (last (prepare_ts df)) = last (map fst (prepare_ts df))"
    using ne by (simp add: last_map)
  then have last: "fst (last (prepare_ts df)) = last ds" using fst by simp
  show ?thesis
    unfolding forecast_aqi_simple_body_def Let_def
    using l7 by (simp add: snd fst last those_map_Some rm forecast_frame_loop)
qed

lemma tail_eq_spec_last: "tail (min k (length ys)) ys = spec_last k ys"
  by (simp add: tail_def spec_last_def take_rev)

lemma mean_eq_spec_mean: "zs \<noteq> [] \<Longrightarrow> mean zs = Some (spec_mean zs)"
  by (simp add: mean_def spec_mean_def)

lemma std_eq_spec_std: "2 \<le> length zs \<Longrightarrow> std zs = Some (spec_sample_std zs)"
  by (simp add: std_def spec_sample_std_def spec_mean_def Let_def of_nat_diff)

lemma length_spec_last: "length (spec_last k ys) = min k (length ys)"
  by (simp add: spec_last_def)

lemma recent_mean_spec: "ys \<noteq> [] \<Longrightarrow> recent_mean ys = Some (spec_mean (spec_last 7 ys))"
proof -
  assume "ys \<noteq> []"
  then have "spec_last 7 ys \<noteq> []"
    using length_spec_last[of 7 ys] by (cases ys) auto
  then show ?thesis
    by (simp add: recent_mean_def tail_eq_spec_last mean_eq_spec_mean)
qed

lemma recent_std_spec:
  "2 \<le> length ys \<Longrightarrow> recent_std ys = Some (spec_sample_std (spec_last 7 ys))"
  by (simp add: recent_std_def tail_eq_spec_last std_eq_spec_std length_spec_last)

lemma spec_sample_std_nonneg: "2 \<le> length zs \<Longrightarrow> 0 \<le> spec_sample_std zs"
  unfolding spec_sample_std_def
  by (intro real_sqrt_ge_zero divide_nonneg_nonneg sum_list_nonneg) auto

lemma base_forecast_spec:
  assumes "length ys = length ds" "ds \<noteq> []"
  shows "base_forecast (spec_mean (spec_last 7 ys)) (trend_slope ys) (seasonal_pattern (zip ds ys)) i
           (last ds + 1 + int i) = spec_point (zip ds ys) i"
proof -
  have l: "fst (last (zip ds ys)) = last ds"
    using assms by (metis last_map map_fst_zip map_is_Nil_conv)
  have m: "map snd (zip ds ys) = ys" using assms by simp
  have f: "(\<lambda>p. dayofyear (fst p) = k) = (\<lambda>(d, v). dayofyear d = k)" for k
    by auto
  define same where "same = spec_same_day_of_year (zip ds ys) (last ds + 1 + int i)"
  have mean_same: "mean same = (if same = [] then None else Some (spec_mean same))"
    by (simp add: mean_eq_spec_mean) (simp add: mean_def)
  have pat: "seasonal_pattern (zip ds ys) =
      (if 365 \<le> length ys then Some (\<lambda>k. mean (map snd (filter (\<lambda>(d, v). dayofyear d = k) (zip ds ys))))
       else None)"
    by (simp add: seasonal_pattern_def f assms(1))
  have same2: "map snd (filter (\<lambda>(d, v). dayofyear d = dayofyear (last ds + 1 + int i)) (zip ds ys)) = same"
    by (simp add: same_def spec_same_day_of_year_def)
  show ?thesis
    unfolding base_forecast_def spec_point_def Let_def l m pat same_def[symmetric]
  proof (cases "same = []")
    case True
    then show "max 0 (min 500
      (case if 365 \<le> length ys
            then Some (\<lambda>k. mean (map snd (filter (\<lambda>(d, v). dayofyear d = k) (zip ds ys))))
            else None of
       None \<Rightarrow> spec_mean (spec_last 7 ys) + trend_slope ys * (real i + 1)
       | Some sp \<Rightarrow>
           (case sp (dayofyear (last ds + 1 + int i)) of
              None \<Rightarrow> spec_mean (spec_last 7 ys) + trend_slope ys * (real i + 1)
            | Some v \<Rightarrow> spec_mean (spec_last 7 ys) + trend_slope ys * (real i + 1) +
                (v - spec_mean (spec_last 7 ys)) * 0.3))) =
      max 0 (min 500 (spec_mean (spec_last 7 ys) + trend_slope ys * (real i + 1) +
        (if 365 \<le> length ys \<and> same \<noteq> [] then 0.3 * (spec_mean same - spec_mean (spec_last 7 ys))
         else 0)))"
      using mean_same by (simp add: same2)
  next
    case False
    then show "max 0 (min 500
      (case if 365 \<le> length ys
            then Some (\<lambda>k. mean (map snd (filter (\<lambda>(d, v). dayofyear d = k) (zip ds ys))))
            else None of
       None \<Rightarrow> spec_mean (spec_last 7 ys) + trend_slope ys * (real i + 1)
       | Some sp \<Rightarrow>
           (case sp (dayofyear (last ds + 1 + int i)) of
              None \<Rightarrow> spec_mean (spec_last 7 ys) + trend_slope ys * (real i + 1)
            | Some v \<Rightarrow> spec_mean (spec_last 7 ys) + trend_slope ys * (real i + 1) +
                (v - spec_mean (spec_last 7 ys)) * 0.3))) =
      max 0 (min 500 (spec_mean (spec_last 7 ys) + trend_slope ys * (real i + 1) +
        (if 365 \<le> length ys \<and> same \<noteq> [] then 0.3 * (spec_mean same - spec_mean (spec_last 7 ys))
         else 0)))"
      using mean_same by (simp add: same2 mult.commute)
  qed
qed

lemma last_upto: "i \<le> j \<Longrightarrow> last [i..j] = j"
  by (simp add: upto_rec2)

lemma prepare_ts_regular:
  assumes "7 \<le> length (prepare_ts df)"
  shows "\<exists>ds ys. prepare_ts df = zip ds (map Some ys) \<and> length ys = length ds \<and> 7 \<le> length ds
            \<and> last ds = Max (fst ` set df) \<and> df \<noteq> []"
proof -
  have ne: "df \<noteq> []" using assms prepare_ts_Nil by auto
  let ?ds = "[Min (fst ` set df) .. Max (fst ` set df)]"
  obtain ys where ys: "prepare_ts df = zip ?ds (map Some ys)" "length ys = length ?ds"
    using prepare_ts_nonempty[OF ne] by auto
  have "Min (fst ` set df) \<le> Max (fst ` set df)"
    using ne by (intro Min_le Max_in) auto
  then have "last ?ds = Max (fst ` set df)" by (rule last_upto)
  moreover have "7 \<le> length ?ds" using assms ys by simp
  ultimately have "prepare_ts df = zip ?ds (map Some ys) \<and> length ys = length ?ds \<and> 7 \<le> length ?ds
            \<and> last ?ds = Max (fst ` set df) \<and> df \<noteq> []"
    using ys ne by simp
  then show ?thesis by (intro exI[of _ ?ds] exI[of _ ys])
qed

lemma simple_forecast_spec:
  assumes "7 \<le> length (prepare_ts df)"
  shows "\<exists>ts. prepare_ts df = map (\<lambda>(d, v). (d, Some v)) ts
            \<and> fst (last ts) = Max (fst ` set df)
            \<and> forecast_aqi_simple df n =
                Some (map (\<lambda>i. \<lparr>f_date = fst (last ts) + 1 + int i, f_aqi = spec_point ts i,
                                lower_bound = spec_lower ts i, upper_bound = spec_upper ts i\<rparr>) [0..<n])"
proof -
  obtain ds ys where p: "prepare_ts df = zip ds (map Some ys)" and len: "length ys = length ds"
    and seven: "7 \<le> length ds" and last: "last ds = Max (fst ` set df)"
    using prepare_ts_regular[OF assms] by auto
  let ?ts = "zip ds ys"
  have ysne: "ys \<noteq> []" and dsne: "ds \<noteq> []" using len seven by auto
  have two: "2 \<le> length ys" using len seven by simp
  have rm: "recent_mean ys = Some (spec_mean (spec_last 7 ys))"
    by (rule recent_mean_spec[OF ysne])
  have cr: "confidence_range (spec_mean (spec_last 7 ys)) (recent_std ys)
             = 1.96 * spec_sample_std (spec_last 7 ys)"
    by (simp add: confidence_range_def recent_std_spec[OF two])
  have m: "map snd ?ts = ys" using len by simp
  have l: "fst (last ?ts) = last ds"
    using len dsne by (metis last_map map_fst_zip map_is_Nil_conv)
  have "prepare_ts df = map (\<lambda>(d, v). (d, Some v)) ?ts"
    by (simp add: p zip_map2)
  moreover have "forecast_aqi_simple df n =
      Some (map (\<lambda>i. \<lparr>f_date = fst (last ?ts) + 1 + int i, f_aqi = spec_point ?ts i,
                      lower_bound = spec_lower ?ts i, upper_bound = spec_upper ?ts i\<rparr>) [0..<n])"
    unfolding forecast_aqi_simple_def simple_body_long[OF p len seven rm]
    by (simp add: base_forecast_spec[OF len dsne] cr spec_lower_def spec_upper_def m l)
  ultimately show ?thesis using l last by (intro exI[of _ ?ts]) simp
qed

lemma simple_none_iff: "forecast_aqi_simple df n = None \<longleftrightarrow> length (prepare_ts df) < 7"
proof (cases "length (prepare_ts df) < 7")
  case True
  then show ?thesis by (simp add: forecast_aqi_simple_def simple_body_short)
next
  case False
  then have "7 \<le> length (prepare_ts df)" by simp
  from simple_forecast_spec[OF this, of n] show ?thesis using False by auto
qed

lemma spec_point_range: "0 \<le> spec_point ts i \<and> spec_point ts i \<le> 500"
  by (simp add: spec_point_def Let_def)

lemma simple_forecast_bounds:
  assumes "forecast_aqi_simple df n = Some fc" "r \<in> set fc"
  shows "0 \<le> lower_bound r \<and> lower_bound r \<le> f_aqi r \<and> f_aqi r \<le> upper_bound r \<and> upper_bound r \<le> 500"
proof -
  have seven: "7 \<le> length (prepare_ts df)"
    using assms(1) simple_none_iff[of df n] by (cases "length (prepare_ts df) < 7") auto
  obtain ts where ts: "prepare_ts df = map (\<lambda>(d, v). (d, Some v)) ts"
    and fc: "forecast_aqi_simple df n =
      Some (map (\<lambda>i. \<lparr>f_date = fst (last ts) + 1 + int i, f_aqi = spec_point ts i,
                      lower_bound = spec_lower ts i, upper_bound = spec_upper ts i\<rparr>) [0..<n])"
    using simple_forecast_spec[OF seven, of n] by auto
  have "length ts = length (prepare_ts df)" using ts by simp
  then have "2 \<le> length (spec_last 7 (map snd ts))"
    using seven by (simp add: length_spec_last)
  then have s: "0 \<le> spec_sample_std (spec_last 7 (map snd ts))"
    by (rule spec_sample_std_nonneg)
  obtain i where "r = \<lparr>f_date = fst (last ts) + 1 + int i, f_aqi = spec_point ts i,
                      lower_bound = spec_lower ts i, upper_bound = spec_upper ts i\<rparr>"
    using assms fc by auto
  then show ?thesis
    using s spec_point_range[of ts i] by (simp add: spec_lower_def spec_upper_def)
qed

section \<open>A constant series\<close>














section \<open>The ARIMA path\<close>

lemma forecast_frame_Inr:
  assumes "forecast_frame ds vals lows ups = Inr fc"
  shows "length fc = length ds \<and> map f_date fc = ds"
proof -
  have len: "length vals = length ds" "length lows = length ds" "length ups = length ds"
    using assms by (auto simp: forecast_frame_def split: if_splits)
  have fc: "fc = map (\<lambda>(d, v, l, u). \<lparr>f_date = d, f_aqi = v, lower_bound = l, upper_bound = u\<rparr>)
                  (zip ds (zip vals (zip lows ups)))"
    using assms len by (simp add: forecast_frame_def)
  have "map f_date fc = map fst (zip ds (zip vals (zip lows ups)))"
    unfolding fc by (simp add: case_prod_unfold)
  then show ?thesis using len fc by simp
qed

lemma arima_body_Inr:
  assumes "forecast_aqi_arima_body lib df n = Inr (fc, m)"
  shows "prepare_ts df \<noteq> [] \<and> length fc = n
           \<and> map f_date fc = date_range (fst (last (prepare_ts df)) + 1) n"
  using assms forecast_frame_Inr
  by (fastforce simp: forecast_aqi_arima_body_def Let_def length_date_range
      split: option.splits if_splits sum.splits)

lemma last_prepare_ts:
  assumes "df \<noteq> []"
  shows "fst (last (prepare_ts df)) = Max (fst ` set df)"
proof -
  let ?ds = "[Min (fst ` set df) .. Max (fst ` set df)]"
  obtain ys where ys: "prepare_ts df = zip ?ds (map Some ys)" "length ys = length ?ds"
    using prepare_ts_nonempty[OF assms] by auto
  have le: "Min (fst ` set df) \<le> Max (fst ` set df)"
    using assms by (intro Min_le Max_in) auto
  then have ne: "?ds \<noteq> []" by (simp add: upto_rec1)
  have "map fst (prepare_ts df) = ?ds" using ys by simp
  then have "fst (last (prepare_ts df)) = last ?ds"
    using ne by (metis last_map map_is_Nil_conv)
  then show ?thesis using last_upto[OF le] by simp
qed

lemma forecast_dates:
  assumes "forecast_aqi_arima avail lib df n = Some (fc, fitted)"
  shows "df \<noteq> [] \<and> length fc = n
           \<and> map f_date fc = date_range (fst (last (prepare_ts df)) + 1) n"
proof -
  have simple: "df \<noteq> [] \<and> length fc' = n
           \<and> map f_date fc' = date_range (fst (last (prepare_ts df)) + 1) n"
    if s: "forecast_aqi_simple df n = Some fc'" for fc'
  proof -
    have seven: "7 \<le> length (prepare_ts df)"
      using s simple_none_iff[of df n] by (cases "length (prepare_ts df) < 7") auto
    obtain ts where l: "fst (last ts) = Max (fst ` set df)"
      and fc: "forecast_aqi_simple df n =
      Some (map (\<lambda>i. \<lparr>f_date = fst (last ts) + 1 + int i, f_aqi = spec_point ts i,
                      lower_bound = spec_lower ts i, upper_bound = spec_upper ts i\<rparr>) [0..<n])"
      using simple_forecast_spec[OF seven, of n] by auto
    have ne: "df \<noteq> []" using seven prepare_ts_Nil by auto
    show ?thesis
      using s fc ne l last_prepare_ts[OF ne] by (auto simp: date_range_def o_def)
  qed
  show ?thesis
  proof (cases "avail")
    case False
    then show ?thesis using assms simple by (auto simp: forecast_aqi_arima_def)
  next
    case True
    show ?thesis
    proof (cases "forecast_aqi_arima_body lib df n")
      case (Inl e)
      then show ?thesis using assms simple True by (auto simp: forecast_aqi_arima_def)
    next
      case (Inr p)
      then have "forecast_aqi_arima_body lib df n = Inr (fc, the fitted)"
        using assms True by (auto simp: forecast_aqi_arima_def split: prod.splits)
      from arima_body_Inr[OF this] show ?thesis using prepare_ts_Nil by auto
    qed
  qed
qed

text \<open>On every path a failure of the forecast means fewer than 7 regularized days.\<close>

lemma forecast_none_only_when_short:
  assumes "forecast_aqi_arima avail lib df n = None"
  shows "length (prepare_ts df) < 7"
proof -
  have "forecast_aqi_simple df n = None"
    using assms
    by (auto simp: forecast_aqi_arima_def split: if_splits sum.splits prod.splits)
  then show ?thesis by (simp add: simple_none_iff)
qed

lemma forecast_without_arima_none_iff:
  "forecast_aqi_arima False lib df n = None \<longleftrightarrow> length (prepare_ts df) < 7"
  by (simp add: forecast_aqi_arima_def simple_none_iff)

text \<open>The slope of a line, and of the ten-point series of the specification's example.\<close>

lemma polyfit_slope_examples:
  "polyfit_slope [1, 3, 5, 7] = 2"
  "trend_slope [50, 55, 60, 58, 62, 65, 61, 63, 67, 70] = 97 / 55"
  by code_simp+

section \<open>A run of consecutive days\<close>





section \<open>The forecast with the fitting routine as a parameter\<close>

lemma trend_slope_with_exact: "trend_slope_with polyfit_slope ys = trend_slope ys"
  by (simp add: trend_slope_with_def trend_slope_def)

lemma forecast_aqi_simple_body_with_exact:
  "forecast_aqi_simple_body_with polyfit_slope df n = forecast_aqi_simple_body df n"
  unfolding forecast_aqi_simple_body_with_def forecast_aqi_simple_body_def trend_slope_with_exact ..

lemma forecast_aqi_simple_with_exact:
  "forecast_aqi_simple_with polyfit_slope df n = forecast_aqi_simple df n"
  unfolding forecast_aqi_simple_with_def forecast_aqi_simple_def forecast_aqi_simple_body_with_exact ..

lemma forecast_aqi_arima_with_exact:
  "forecast_aqi_arima_with polyfit_slope avail lib df n = forecast_aqi_arima avail lib df n"
  unfolding forecast_aqi_arima_with_def forecast_aqi_arima_def forecast_aqi_simple_with_exact ..




section \<open>The calendar arithmetic\<close>

lemma era_year_of_day:
  fixes c q t doy :: int
  assumes c: "0 \<le> c" "c \<le> 3" and q: "0 \<le> q" "q \<le> 24" and t: "0 \<le> t" "t \<le> 3"
    and doy: "0 \<le> doy"
    and leap: "doy \<le> 364 \<or> (doy = 365 \<and> t = 3 \<and> (q < 24 \<or> c = 3))"
    and doe: "doe = 36524 * c + 1461 * q + 365 * t + doy"
  shows "(doe - doe div 1460 + doe div 36524 - doe div 146096) div 365 = 100 * c + 4 * q + t"
proof (cases "doe = 146096")
  case True
  have "c = 3 \<and> q = 24 \<and> t = 3" using True doe c q t doy leap by linarith
  then show ?thesis using True by simp
next
  case False
  have small: "1461 * q + 365 * t + doy < 36524"
    using False doe c q t doy leap by linarith
  have d36: "doe div 36524 = c"
    by (insert doe q t doy small, rule int_div_pos_eq[where r = "1461 * q + 365 * t + doy"]; simp)
  have "doe < 146096" using doe c small by linarith
  moreover have "0 \<le> doe" using doe c q t doy by linarith
  ultimately have d146: "doe div 146096 = 0" by simp
  define w where "w = 24 * c + q + 365 * t + doy"
  have w: "0 \<le> w" "w < 2920" using c q t doy leap by (auto simp: w_def)
  show ?thesis
  proof (cases "w < 1460")
    case True
    have d1460: "doe div 1460 = 25 * c + q"
      by (insert doe w True, rule int_div_pos_eq[where r = w]; auto simp: w_def)
    have d364: "doy \<le> 364" using True leap t c q by (auto simp: w_def)
    show ?thesis
      unfolding d36 d146 d1460
      by (insert doe doy d364, rule int_div_pos_eq[where r = doy]; simp)
  next
    case False
    have d1460: "doe div 1460 = 25 * c + q + 1"
      by (insert doe w False, rule int_div_pos_eq[where r = "w - 1460"]; auto simp: w_def)
    have lo: "1 \<le> doy" using False c q t by (auto simp: w_def)
    have hi: "doy \<le> 365" using leap by auto
    show ?thesis
      unfolding d36 d146 d1460
      by (insert doe lo hi, rule int_div_pos_eq[where r = "doy - 1"]; simp)
  qed
qed

lemma era_days_before_year:
  fixes c q t :: int
  assumes "0 \<le> c" "0 \<le> q" "q \<le> 24" "0 \<le> t" "t \<le> 3" and "yoe = 100 * c + 4 * q + t"
  shows "365 * yoe + yoe div 4 - yoe div 100 = 36524 * c + 1461 * q + 365 * t"
proof -
  have "yoe div 4 = 25 * c + q"
    by (insert assms, rule int_div_pos_eq[where r = t]; simp)
  moreover have "yoe div 100 = c"
    by (insert assms, rule int_div_pos_eq[where r = "4 * q + t"]; simp)
  ultimately show ?thesis using assms by simp
qed

lemma era_day_decompose:
  fixes doe :: int
  assumes "0 \<le> doe" "doe < 146097"
  shows "\<exists>c q t doy. 0 \<le> c \<and> c \<le> 3 \<and> 0 \<le> q \<and> q \<le> 24 \<and> 0 \<le> t \<and> t \<le> 3 \<and> 0 \<le> doy
           \<and> (doy \<le> 364 \<or> (doy = 365 \<and> t = 3 \<and> (q < 24 \<or> c = 3)))
           \<and> doe = 36524 * c + 1461 * q + 365 * t + doy"
proof -
  define c where "c = min 3 (doe div 36524)"
  define r1 where "r1 = doe - 36524 * c"
  define q where "q = min 24 (r1 div 1461)"
  define r2 where "r2 = r1 - 1461 * q"
  define t where "t = min 3 (r2 div 365)"
  define doy where "doy = r2 - 365 * t"
  have c: "0 \<le> c" "c \<le> 3" using assms unfolding c_def by simp_all
  have r1: "0 \<le> r1" "r1 \<le> 36524" "c < 3 \<longrightarrow> r1 < 36524"
    using assms unfolding r1_def c_def by arith+
  have q: "0 \<le> q" "q \<le> 24" using r1 unfolding q_def by simp_all
  have r2: "0 \<le> r2" "r2 \<le> 1460" "q < 24 \<longrightarrow> r2 < 1461" "q = 24 \<and> r2 = 1460 \<longrightarrow> r1 = 36524"
    using r1 unfolding r2_def q_def by arith+
  have t: "0 \<le> t" "t \<le> 3" using r2 unfolding t_def by simp_all
  have doy: "0 \<le> doy" "doy \<le> 365" "t < 3 \<longrightarrow> doy < 365" "doy = 365 \<longrightarrow> r2 = 1460"
    using r2 unfolding doy_def t_def by arith+
  have leap: "doy \<le> 364 \<or> (doy = 365 \<and> t = 3 \<and> (q < 24 \<or> c = 3))"
    using doy t q c r1 r2 by force
  have "doe = 36524 * c + 1461 * q + 365 * t + doy"
    by (simp add: doy_def r2_def r1_def)
  then show ?thesis using c q t doy(1) leap by blast
qed

lemma civil_from_days_decomposed:
  fixes c q t doy :: int
  assumes c: "0 \<le> c" "c \<le> 3" and q: "0 \<le> q" "q \<le> 24" and t: "0 \<le> t" "t \<le> 3"
    and doy: "0 \<le> doy"
    and leap: "doy \<le> 364 \<or> (doy = 365 \<and> t = 3 \<and> (q < 24 \<or> c = 3))"
    and z: "z + 719468 = era * 146097 + (36524 * c + 1461 * q + 365 * t + doy)"
  shows "civil_from_days z =
     (if (if (5 * doy + 2) div 153 < 10 then (5 * doy + 2) div 153 + 3 else (5 * doy + 2) div 153 - 9) \<le> 2
      then 100 * c + 4 * q + t + era * 400 + 1 else 100 * c + 4 * q + t + era * 400,
      if (5 * doy + 2) div 153 < 10 then (5 * doy + 2) div 153 + 3 else (5 * doy + 2) div 153 - 9,
      doy - (153 * ((5 * doy + 2) div 153) + 2) div 5 + 1)"
proof -
  define doe where "doe = 36524 * c + 1461 * q + 365 * t + doy"
  define yoe where "yoe = 100 * c + 4 * q + t"
  have range: "0 \<le> doe" "doe < 146097"
    using c q t doy leap unfolding doe_def by auto
  have e1: "(z + 719468) div 146097 = era"
    by (insert z range, rule int_div_pos_eq[where r = doe]; simp add: doe_def)
  have e2: "z + 719468 - era * 146097 = doe"
    using z by (simp add: doe_def)
  have e3: "(doe - doe div 1460 + doe div 36524 - doe div 146096) div 365 = yoe"
    unfolding yoe_def by (rule era_year_of_day[OF c q t doy leap]) (simp add: doe_def)
  have "365 * yoe + yoe div 4 - yoe div 100 = 36524 * c + 1461 * q + 365 * t"
    by (rule era_days_before_year[OF c(1) q t]) (simp add: yoe_def)
  then have e4: "doe - (365 * yoe + yoe div 4 - yoe div 100) = doy"
    by (simp add: doe_def)
  show ?thesis
    unfolding civil_from_days_def Let_def e1 e2 e3 e4
    by (simp add: yoe_def)
qed

lemma month_of_range: "1 \<le> month_of z \<and> month_of z \<le> 12"
proof -
  define era where "era = (z + 719468) div 146097"
  define doe where "doe = (z + 719468) mod 146097"
  have range: "0 \<le> doe" "doe < 146097" by (simp_all add: doe_def)
  obtain c q t doy where c: "0 \<le> c" "c \<le> 3" and q: "0 \<le> q" "q \<le> 24"
    and t: "0 \<le> t" "t \<le> 3" and doy: "0 \<le> doy"
    and leap: "doy \<le> 364 \<or> (doy = 365 \<and> t = 3 \<and> (q < 24 \<or> c = 3))"
    and doe: "doe = 36524 * c + 1461 * q + 365 * t + doy"
    using era_day_decompose[OF range] by blast
  have z: "z + 719468 = era * 146097 + (36524 * c + 1461 * q + 365 * t + doy)"
    unfolding doe[symmetric] era_def doe_def by simp
  have d: "doy \<le> 365" using leap by auto
  have "0 \<le> (5 * doy + 2) div 153" "(5 * doy + 2) div 153 \<le> 11"
    using doy d by arith+
  then show ?thesis
    unfolding month_of_def civil_from_days_decomposed[OF c q t doy leap z] by auto
qed

lemma first_of_month:
  assumes "1 \<le> m" "m \<le> 12"
  shows "civil_from_days (days_from_civil y m 1) = (y, m, 1)"
proof -
  define y' where "y' = (if m \<le> 2 then y - 1 else y)"
  define mp where "mp = (if m > 2 then m - 3 else m + 9)"
  define era where "era = y' div 400"
  define yoe where "yoe = y' mod 400"
  define c where "c = yoe div 100"
  define q where "q = (yoe mod 100) div 4"
  define t where "t = yoe mod 4"
  define doy where "doy = (153 * mp + 2) div 5"
  have yoe: "0 \<le> yoe" "yoe < 400" by (simp_all add: yoe_def)
  have c: "0 \<le> c" "c \<le> 3" using yoe unfolding c_def by arith+
  have q: "0 \<le> q" "q \<le> 24" unfolding q_def by arith+
  have t: "0 \<le> t" "t \<le> 3" unfolding t_def by arith+
  have y1: "yoe = 100 * c + yoe mod 100" unfolding c_def by simp
  have y2: "yoe mod 100 = 4 * q + yoe mod 100 mod 4" unfolding q_def by simp
  have y3: "yoe mod 100 mod 4 = t" unfolding t_def by (simp add: mod_mod_cancel)
  have y4: "yoe = 100 * c + 4 * q + t" using y1 y2 y3 by linarith
  have mp: "0 \<le> mp" "mp \<le> 11" using assms unfolding mp_def by auto
  have doy: "0 \<le> doy" "doy \<le> 364" using mp unfolding doy_def by arith+
  have leap: "doy \<le> 364 \<or> (doy = 365 \<and> t = 3 \<and> (q < 24 \<or> c = 3))" using doy by simp
  have before: "365 * yoe + yoe div 4 - yoe div 100 = 36524 * c + 1461 * q + 365 * t"
    by (rule era_days_before_year[OF c(1) q t y4])
  have ye: "y' - era * 400 = yoe"
    unfolding era_def yoe_def by (simp add: minus_div_mult_eq_mod)
  have dfc: "days_from_civil y m 1 = era * 146097 + (yoe * 365 + yoe div 4 - yoe div 100 + doy) - 719468"
    unfolding days_from_civil_def Let_def y'_def[symmetric] mp_def[symmetric] era_def[symmetric] ye
      doy_def[symmetric]
    by simp
  have z: "days_from_civil y m 1 + 719468 = era * 146097 + (36524 * c + 1461 * q + 365 * t + doy)"
    using dfc before by simp
  have inv: "(5 * doy + 2) div 153 = mp"
    using mp unfolding doy_def by arith
  have year: "100 * c + 4 * q + t + era * 400 = y'"
    using y4 ye by simp
  have month: "(if mp < 10 then mp + 3 else mp - 9) = m"
    using assms unfolding mp_def by auto
  show ?thesis
    unfolding civil_from_days_decomposed[OF c q t doy(1) leap z] inv month year
    using assms by (auto simp: y'_def doy_def)
qed

lemma first_of_month_fields:
  "year_of (days_from_civil (year_of z) (month_of z) 1) = year_of z"
  "month_of (days_from_civil (year_of z) (month_of z) 1) = month_of z"
  "day_of (days_from_civil (year_of z) (month_of z) 1) = 1"
  using first_of_month[of "month_of z" "year_of z"] month_of_range[of z]
  by (simp_all add: year_of_def month_of_def day_of_def)

lemma calendar_examples:
  "civil_from_days 0 = (1970, 1, 1)"
  "civil_from_days 18262 = (2020, 1, 1)"
  "civil_from_days 18321 = (2020, 2, 29)"
  "days_from_civil 2020 2 15 = 18307"
  "dayofyear 18321 = 60"
  "dayofyear (days_from_civil 2020 12 31) = 366"
  "dayofyear (days_from_civil 2021 12 31) = 365"
  by code_simp+

section \<open>Gap filling and de-duplication\<close>

lemma length_groupby_ffill_from: "length (groupby_ffill_from seen df) = length df"
  by (induction df arbitrary: seen) (auto split: option.splits)

lemma groupby_ffill_from_present:
  "\<forall>r\<in>set df. city r \<noteq> None \<and> aqi r \<noteq> None \<Longrightarrow> groupby_ffill_from seen df = map aqi df"
  by (induction df arbitrary: seen) (auto split: option.splits)

lemma length_fillna: "length (fillna m xs) = length xs"
  by (simp add: fillna_def)

lemma fillna_id: "None \<notin> set xs \<Longrightarrow> fillna m xs = xs"
  by (induction xs) (auto simp: fillna_def split: option.splits)

lemma assign_aqi_same: "assign_aqi df (map aqi df) = df"
  by (induction df) (auto simp: assign_aqi_def)

lemma length_assign_aqi: "length vals = length df \<Longrightarrow> length (assign_aqi df vals) = length df"
  by (simp add: assign_aqi_def)

lemma assign_aqi_columns:
  assumes "length vals = length df"
  shows "map city (assign_aqi df vals) = map city df"
    and "map date (assign_aqi df vals) = map date df"
    and "map aqi (assign_aqi df vals) = vals"
  using assms by (induction df vals rule: list_induct2') (auto simp: assign_aqi_def)

lemma filled_rows_id:
  assumes "\<forall>r\<in>set df. city r \<noteq> None \<and> aqi r \<noteq> None"
  shows "filled_rows df = df"
proof -
  have n: "None \<notin> set (map aqi df)" using assms by auto
  have "bfill (groupby_city_ffill df) = map aqi df"
    using assms n by (simp add: groupby_city_ffill_def groupby_ffill_from_present bfill_id)
  then show ?thesis
    using n by (simp add: filled_rows_def Let_def assign_aqi_same fillna_id)
qed

lemma filled_rows_columns:
  "map city (filled_rows df) = map city df" "map date (filled_rows df) = map date df"
  "length (filled_rows df) = length df"
proof -
  let ?v1 = "bfill (groupby_city_ffill df)"
  let ?df1 = "assign_aqi df ?v1"
  let ?v2 = "fillna (mean_skipna (map aqi ?df1)) (map aqi ?df1)"
  have l1: "length ?v1 = length df"
    by (simp add: length_bfill groupby_city_ffill_def length_groupby_ffill_from)
  have l2: "length ?v2 = length ?df1"
    by (simp add: length_fillna)
  have f: "filled_rows df = assign_aqi ?df1 ?v2" by (simp add: filled_rows_def Let_def)
  show "map city (filled_rows df) = map city df"
    unfolding f assign_aqi_columns(1)[OF l2] assign_aqi_columns(1)[OF l1] ..
  show "map date (filled_rows df) = map date df"
    unfolding f assign_aqi_columns(2)[OF l2] assign_aqi_columns(2)[OF l1] ..
  show "length (filled_rows df) = length df"
    unfolding f length_assign_aqi[OF l2] length_assign_aqi[OF l1] ..
qed

lemma drop_duplicates_from_subset: "set (drop_duplicates_from seen df) \<subseteq> set df"
  by (induction seen df rule: drop_duplicates_from.induct) auto

lemma drop_duplicates_from_keys:
  "(\<lambda>r. (city r, date r)) ` set (drop_duplicates_from seen df) \<union> set seen
     = (\<lambda>r. (city r, date r)) ` set df \<union> set seen"
  by (induction seen df rule: drop_duplicates_from.induct) auto

lemma drop_duplicates_keys:
  "(\<lambda>r. (city r, date r)) ` set (drop_duplicates df) = (\<lambda>r. (city r, date r)) ` set df"
  using drop_duplicates_from_keys[of "[]" df] by (simp add: drop_duplicates_def)

lemma drop_duplicates_subset: "set (drop_duplicates df) \<subseteq> set df"
  by (simp add: drop_duplicates_def drop_duplicates_from_subset)

lemma set_sort_values_date: "set (sort_values_date df) = set df"
  by (simp add: sort_values_date_def)

lemma sorted_sort_values_date: "sorted (map date (sort_values_date df))"
  by (simp add: sort_values_date_def)

lemma city_mask_city: "city a = city b \<Longrightarrow> city_mask name a = city_mask name b"
  by (simp add: city_mask_def)

lemma keys_of_columns:
  fixes xs ys :: table
  assumes "map city xs = map city ys" "map date xs = map date ys"
  shows "(\<lambda>r. (city r, date r)) ` set xs = (\<lambda>r. (city r, date r)) ` set ys"
proof -
  have z: "map (\<lambda>r. (city r, date r)) xs = zip (map city xs) (map date xs)" for xs :: table
    by (induction xs) auto
  have "map (\<lambda>r. (city r, date r)) xs = map (\<lambda>r. (city r, date r)) ys"
    using z[of xs] z[of ys] assms by metis
  then have "set (map (\<lambda>r. (city r, date r)) xs) = set (map (\<lambda>r. (city r, date r)) ys)"
    by simp
  then show ?thesis by simp
qed

lemma filled_rows_mask:
  assumes "\<forall>r\<in>set df. city_mask name r"
  shows "\<forall>r\<in>set (filled_rows df). city_mask name r"
proof
  fix r assume "r \<in> set (filled_rows df)"
  then obtain i where i: "i < length (filled_rows df)" "r = filled_rows df ! i"
    by (auto simp: in_set_conv_nth)
  then have il: "i < length df" by (simp add: filled_rows_columns(3))
  have "city r = map city (filled_rows df) ! i" using i by simp
  also have "\<dots> = city (df ! i)" using il by (simp add: filled_rows_columns(1))
  finally have "city_mask name r = city_mask name (df ! i)" by (rule city_mask_city)
  then show "city_mask name r" using assms il by simp
qed

text \<open>The result of the preparer on the rows that the filter kept.\<close>

lemma prepared_rows_properties:
  assumes "\<forall>r\<in>set df. city_mask name r"
  shows "\<forall>r\<in>set (sort_values_date (drop_duplicates (filled_rows df))). city_mask name r"
    and "(\<lambda>r. (city r, date r)) ` set (sort_values_date (drop_duplicates (filled_rows df)))
          = (\<lambda>r. (city r, date r)) ` set df"
    and "sorted (map date (sort_values_date (drop_duplicates (filled_rows df))))"
proof -
  show "\<forall>r\<in>set (sort_values_date (drop_duplicates (filled_rows df))). city_mask name r"
    using filled_rows_mask[OF assms] drop_duplicates_subset[of "filled_rows df"]
    by (auto simp: set_sort_values_date)
  show "(\<lambda>r. (city r, date r)) ` set (sort_values_date (drop_duplicates (filled_rows df)))
          = (\<lambda>r. (city r, date r)) ` set df"
    unfolding set_sort_values_date drop_duplicates_keys
    by (rule keys_of_columns) (simp_all add: filled_rows_columns)
  show "sorted (map date (sort_values_date (drop_duplicates (filled_rows df))))"
    by (rule sorted_sort_values_date)
qed

text \<open>White space and capital letters beyond the ASCII range.\<close>

lemma str_examples:
  "str_strip (''Delhi'' @ [CHR 0xA0]) = ''Delhi''"
  "str_strip (CHR 0x85 # '' Delhi'') = ''Delhi''"
  "str_lower (''DELH'' @ [CHR 0xC9]) = ''delh'' @ [CHR 0xE9]"
  "str_lower [CHR 0xD7, CHR 0xDF] = [CHR 0xD7, CHR 0xDF]"
  "city_mask (''delhi'' @ [CHR 0xA0]) delhi_row"
  by code_simp+

section \<open>The preparer and the table objects\<close>

lemma load_full_dataset_cached:
  "data_cache s = Some r \<Longrightarrow> load_full_dataset csv s = (Some r, s)"
  by (simp add: load_full_dataset_def)

lemma fill_and_finish_result:
  assumes "r < length (heap s)"
  shows "fst (fill_and_finish r df s) = Some (length (heap s))"
    and "heap (snd (fill_and_finish r df s)) =
           (heap s)[r := filled_rows df] @ [sort_values_date (drop_duplicates (filled_rows df))]"
    and "data_cache (snd (fill_and_finish r df s)) = data_cache s"
  by (simp_all add: fill_and_finish_def new_table_def set_table_def Let_def)

lemma filter_city_none:
  "filter (city_mask name) df = [] \<Longrightarrow> fst (filter_city name r df s) = None"
  by (simp add: filter_city_def new_table_def)

lemma filter_city_some:
  assumes "filter (city_mask name) df \<noteq> []"
  shows "fst (filter_city name r df s) = Some (Suc (length (heap s)))"
    and "heap (snd (filter_city name r df s)) =
           heap s @ [filled_rows (filter (city_mask name) df),
                     sort_values_date (drop_duplicates (filled_rows (filter (city_mask name) df)))]"
    and "data_cache (snd (filter_city name r df s)) = data_cache s"
  using assms
  by (simp_all add: filter_city_def new_table_def fill_and_finish_def set_table_def Let_def)

lemma preprocess_with_filter:
  assumes "name \<noteq> []" "name \<noteq> ''All Cities''"
    and "load_full_dataset csv s = (Some r, s1)" "get_table r s1 = Some df"
  shows "load_and_preprocess_data csv (Some name) s = filter_city name r df s1"
  using assms by (simp add: load_and_preprocess_data_def city_filter_applies_def)

lemma preprocess_without_filter:
  assumes "\<not> city_filter_applies c"
    and "load_full_dataset csv s = (Some r, s1)" "get_table r s1 = Some df"
  shows "load_and_preprocess_data csv c s = fill_and_finish r df s1"
  using assms by (cases c) (auto simp: load_and_preprocess_data_def)

text \<open>With a city filter that applies, no table object that existed before is written.\<close>

lemma preprocess_with_filter_frame:
  assumes "name \<noteq> []" "name \<noteq> ''All Cities''"
    and "load_full_dataset csv s = (Some r, s1)" "get_table r s1 = Some df"
  shows "take (length (heap s1)) (heap (snd (load_and_preprocess_data csv (Some name) s))) = heap s1"
    and "data_cache (snd (load_and_preprocess_data csv (Some name) s)) = data_cache s1"
proof -
  have eq: "load_and_preprocess_data csv (Some name) s = filter_city name r df s1"
    by (rule preprocess_with_filter[OF assms])
  show "take (length (heap s1)) (heap (snd (load_and_preprocess_data csv (Some name) s))) = heap s1"
    unfolding eq
    by (cases "filter (city_mask name) df = []")
       (simp_all add: filter_city_some(2), simp add: filter_city_def new_table_def)
  show "data_cache (snd (load_and_preprocess_data csv (Some name) s)) = data_cache s1"
    unfolding eq
    by (cases "filter (city_mask name) df = []")
       (simp_all add: filter_city_some(3), simp add: filter_city_def new_table_def)
qed

text \<open>
  Without a filter the table that is written is the cached one; what is written is the
  gap-filled column, which equals the old one when no row lacks a city or a value.
\<close>

lemma preprocess_without_filter_cache:
  assumes "\<not> city_filter_applies c"
    and "load_full_dataset csv s = (Some r, s1)" "get_table r s1 = Some df"
  shows "get_table r (snd (load_and_preprocess_data csv c s)) = Some (filled_rows df)"
proof -
  have r: "r < length (heap s1)"
    using assms(3) by (simp add: get_table_def split: if_splits)
  show ?thesis
    unfolding preprocess_without_filter[OF assms]
    using r by (simp add: get_table_def fill_and_finish_result(2)[OF r] nth_append)
qed

section \<open>Properties of the aggregator\<close>

lemma with_year_month_keys:
  "map (\<lambda>r. (year r, month r)) (with_year_month df)
     = map (\<lambda>r. (year_of (date r), month_of (date r))) df"
  by (simp add: with_year_month_def)

lemma with_year_month_group:
  "map aqi (filter (\<lambda>r. (year r, month r) = (y, m)) (with_year_month df))
     = map aqi (filter (\<lambda>r. year_of (date r) = y \<and> month_of (date r) = m) df)"
  by (induction df) (auto simp: with_year_month_def)

lemma with_year_month_group':
  "map aqi (filter (\<lambda>r. year r = y \<and> month r = m) (with_year_month df))
     = map aqi (filter (\<lambda>r. year_of (date r) = y \<and> month_of (date r) = m) df)"
  using with_year_month_group[of y m df] by simp

lemma mset_sort_remdups:
  fixes xs :: "'a::linorder list"
  shows "mset (sort (remdups xs)) = mset_set (set xs)"
proof -
  have "mset (sort (remdups xs)) = mset (remdups xs)" by simp
  also have "\<dots> = mset_set (set (remdups xs))"
    by (rule mset_set_set[symmetric]) simp
  finally show ?thesis by simp
qed

lemma monthly_frame_eq:
  "monthly_frame (with_year_month df) =
     sort_key fst (map (\<lambda>(y, m). (days_from_civil y m 1,
         mean_skipna (map aqi (filter (\<lambda>r. year_of (date r) = y \<and> month_of (date r) = m) df))))
       (sort (remdups (map (\<lambda>r. (year_of (date r), month_of (date r))) df))))"
  unfolding monthly_frame_def Let_def with_year_month_keys map_map
  by (rule arg_cong[where f = "sort_key fst"], rule map_cong)
     (auto simp: with_year_month_group')

lemma monthly_frame_mset:
  "mset (monthly_frame (with_year_month df)) =
     image_mset (\<lambda>(y, m). (days_from_civil y m 1,
         mean_skipna (map aqi (filter (\<lambda>r. year_of (date r) = y \<and> month_of (date r) = m) df))))
       (mset_set ((\<lambda>r. (year_of (date r), month_of (date r))) ` set df))"
proof -
  let ?ks = "sort (remdups (map (\<lambda>r. (year_of (date r), month_of (date r))) df))"
  have "mset ?ks = mset_set (set (map (\<lambda>r. (year_of (date r), month_of (date r))) df))"
    by (rule mset_sort_remdups)
  then show ?thesis unfolding monthly_frame_eq by simp
qed

lemma first_of_month_inj:
  assumes "days_from_civil y m 1 = days_from_civil y' m' 1"
    and "1 \<le> m" "m \<le> 12" "1 \<le> m'" "m' \<le> 12"
  shows "y = y' \<and> m = m'"
proof -
  have "civil_from_days (days_from_civil y m 1) = civil_from_days (days_from_civil y' m' 1)"
    using assms(1) by simp
  then show ?thesis
    using first_of_month[OF assms(2,3), of y] first_of_month[OF assms(4,5), of y'] by simp
qed

lemma monthly_frame_distinct: "distinct (map fst (monthly_frame (with_year_month df)))"
proof -
  let ?ks = "sort (remdups (map (\<lambda>r. (year_of (date r), month_of (date r))) df))"
  let ?F = "\<lambda>(y, m). (days_from_civil y m 1,
         mean_skipna (map aqi (filter (\<lambda>r. year_of (date r) = y \<and> month_of (date r) = m) df)))"
  have inj: "inj_on (\<lambda>(y, m). days_from_civil y m 1) (set ?ks)"
  proof (rule inj_onI)
    fix a b assume a: "a \<in> set ?ks" and b: "b \<in> set ?ks"
      and eq: "(case a of (y, m) \<Rightarrow> days_from_civil y m 1) = (case b of (y, m) \<Rightarrow> days_from_civil y m 1)"
    obtain y m where am: "a = (y, m)" by (cases a)
    obtain y' m' where bm: "b = (y', m')" by (cases b)
    have "1 \<le> m \<and> m \<le> 12" using a am month_of_range by auto
    moreover have "1 \<le> m' \<and> m' \<le> 12" using b bm month_of_range by auto
    moreover have "days_from_civil y m 1 = days_from_civil y' m' 1" using eq am bm by simp
    ultimately show "a = b" using first_of_month_inj[of y m y' m'] am bm by simp
  qed
  have fm: "map fst (map ?F ?ks) = map (\<lambda>(y, m). days_from_civil y m 1) ?ks"
    by (simp add: case_prod_unfold)
  have dm: "distinct (map (\<lambda>(y, m). days_from_civil y m 1) ?ks)"
    using inj by (simp add: distinct_map)
  have d: "distinct (map fst (map ?F ?ks))" unfolding fm by (rule dm)
  have ms: "mset (map fst (sort_key fst (map ?F ?ks))) = mset (map fst (map ?F ?ks))"
    by (simp only: mset_map mset_sort)
  have "distinct (map fst (sort_key fst (map ?F ?ks)))"
    by (rule iffD2[OF mset_eq_imp_distinct_iff[OF ms] d])
  then show ?thesis unfolding monthly_frame_eq .
qed

lemma monthly_frame_entries:
  assumes "e \<in> set (monthly_frame (with_year_month df))"
  shows "day_of (fst e) = 1
      \<and> (\<exists>row\<in>set df. year_of (fst e) = year_of (date row) \<and> month_of (fst e) = month_of (date row))
      \<and> snd e = mean_skipna (map aqi (filter
            (\<lambda>row. year_of (date row) = year_of (fst e) \<and> month_of (date row) = month_of (fst e)) df))"
proof -
  obtain row where row: "row \<in> set df"
    and e: "e = (days_from_civil (year_of (date row)) (month_of (date row)) 1,
         mean_skipna (map aqi (filter (\<lambda>r. year_of (date r) = year_of (date row)
                                          \<and> month_of (date r) = month_of (date row)) df)))"
    using assms unfolding monthly_frame_eq by auto
  show ?thesis
    unfolding e fst_conv snd_conv first_of_month_fields using row by auto
qed

lemma monthly_frame_sorted: "sorted (map fst (monthly_frame df))"
  by (simp add: monthly_frame_def Let_def)

lemma calculate_monthly_aqi_result:
  assumes "get_table r s = Some df"
  shows "fst (calculate_monthly_aqi r s) = Some (monthly_frame (with_year_month df))"
    and "heap (snd (calculate_monthly_aqi r s)) = heap s @ [with_year_month df]"
    and "data_cache (snd (calculate_monthly_aqi r s)) = data_cache s"
  using assms
  by (simp_all add: calculate_monthly_aqi_def new_table_def set_table_def Let_def)

lemma calculate_daily_aqi_result:
  assumes "get_table r s = Some df"
  shows "calculate_daily_aqi r s = (Some (daily_frame df), s)"
  using assms by (simp add: calculate_daily_aqi_def)

lemma get_table_append:
  "get_table r s = Some df \<Longrightarrow> heap s' = heap s @ ts \<Longrightarrow> get_table r s' = Some df"
  by (auto simp: get_table_def nth_append split: if_splits)

section \<open>Claims about the forecast engine\<close>



text \<open>
  C10. When the regularized series has at least 7 days, the degenerate branches of the
  fallback are not taken: the sample standard deviation of the seven-day window is a
  number, so the confidence range is 1.96 times it whatever the mean, and the trend window
  has more than one point, so the slope is the fitted one.
\<close>

theorem fallback_degenerate_branches_unreachable:
  assumes "7 \<le> length (prepare_ts df)"
  shows "\<exists>ys s. map snd (prepare_ts df) = map Some ys
           \<and> recent_std ys = Some s
           \<and> confidence_range rmean (recent_std ys) = s * 1.96
           \<and> 1 < length (recent_data ys)
           \<and> trend_slope ys = polyfit_slope (recent_data ys)"
proof -
  obtain ds ys where p: "prepare_ts df = zip ds (map Some ys)" and len: "length ys = length ds"
    and seven: "7 \<le> length ds"
    using prepare_ts_regular[OF assms] by auto
  have two: "2 \<le> length ys" using len seven by simp
  have rd: "1 < length (recent_data ys)"
    using len seven by (simp add: recent_data_def length_tail)
  have "map snd (prepare_ts df) = map Some ys
           \<and> recent_std ys = Some (spec_sample_std (spec_last 7 ys))
           \<and> confidence_range rmean (recent_std ys) = spec_sample_std (spec_last 7 ys) * 1.96
           \<and> 1 < length (recent_data ys)
           \<and> trend_slope ys = polyfit_slope (recent_data ys)"
    using p len rd by (simp add: recent_std_spec[OF two] confidence_range_def trend_slope_def)
  then show ?thesis by (intro exI[of _ ys] exI[of _ "spec_sample_std (spec_last 7 ys)"])
qed

theorem fallback_degenerate_branches_unreachable_witness:
  "7 \<le> length (prepare_ts [(1, 50), (2, 55), (3, 60), (4, 58), (9, 67), (10, 70)])
   \<and> (\<exists>ys s. map snd (prepare_ts [(1, 50), (2, 55), (3, 60), (4, 58), (9, 67), (10, 70)]) = map Some ys
           \<and> recent_std ys = Some s
           \<and> confidence_range 0 (recent_std ys) = s * 1.96
           \<and> 1 < length (recent_data ys)
           \<and> trend_slope ys = polyfit_slope (recent_data ys))"
proof -
  have h: "7 \<le> length (prepare_ts [(1, 50), (2, 55), (3, 60), (4, 58), (9, 67), (10, 70)])"
    by code_simp
  show ?thesis using h fallback_degenerate_branches_unreachable[OF h, of 0] by simp
qed

text \<open>
  C4. Every forecast that is returned for the horizon \<open>n\<close>, by the ARIMA path or by the
  fallback, has exactly \<open>n\<close> rows; the date of row \<open>i\<close> is the last regularized date, which
  is the latest date of the history, plus \<open>i + 1\<close> days, so the dates are consecutive, start
  the day after the history ends, and every one of them is later than every date of the
  history.
\<close>

theorem forecast_dates_consecutive:
  assumes "forecast_aqi_arima avail lib df n = Some (fc, fitted)"
  shows "length fc = n
           \<and> fst (last (prepare_ts df)) = Max (fst ` set df)
           \<and> (\<forall>i<n. f_date (fc ! i) = fst (last (prepare_ts df)) + 1 + int i)
           \<and> (\<forall>d\<in>fst ` set df. \<forall>r\<in>set fc. d < f_date r)"
proof -
  have ne: "df \<noteq> []" and len: "length fc = n"
    and dates: "map f_date fc = date_range (fst (last (prepare_ts df)) + 1) n"
    using forecast_dates[OF assms] by auto
  have l: "fst (last (prepare_ts df)) = Max (fst ` set df)"
    by (rule last_prepare_ts[OF ne])
  have nth: "f_date (fc ! i) = fst (last (prepare_ts df)) + 1 + int i" if "i < n" for i
  proof -
    have "f_date (fc ! i) = map f_date fc ! i" using that len by simp
    then show ?thesis using that by (simp add: dates nth_date_range)
  qed
  have later: "d < f_date r" if d: "d \<in> fst ` set df" and r: "r \<in> set fc" for d r
  proof -
    obtain i where i: "i < n" "r = fc ! i" using r len by (auto simp: in_set_conv_nth)
    have "d \<le> Max (fst ` set df)" using d by (intro Max_ge) auto
    then show ?thesis using nth[OF i(1)] i(2) l by simp
  qed
  show ?thesis using len l nth later by simp
qed

theorem forecast_dates_consecutive_witness:
  "forecast_aqi_arima True example_lib [(1, 12), (3, 20)] 2 =
     Some ([\<lparr>f_date = 4, f_aqi = 10, lower_bound = -20, upper_bound = 40\<rparr>,
            \<lparr>f_date = 5, f_aqi = 10, lower_bound = -20, upper_bound = 40\<rparr>], Some ())
   \<and> length [\<lparr>f_date = 4, f_aqi = 10, lower_bound = -20, upper_bound = 40\<rparr>,
            \<lparr>f_date = 5, f_aqi = 10, lower_bound = -20, upper_bound = (40::real)\<rparr>] = 2
   \<and> fst (last (prepare_ts [(1, 12), (3, 20)])) = Max (fst ` set [(1, 12), (3, 20::real)])"
proof -
  have p: "prepare_ts [(1, 12), (3, 20)] = [(1, Some 12), (2, Some 12), (3, Some 20)]"
    by code_simp
  have d: "date_range 4 2 = [4, 5]" by code_simp
  have r: "replicate 2 x = [x, x]" for x :: 'a by (simp add: numeral_2_eq_2)
  have h: "forecast_aqi_arima True example_lib [(1, 12), (3, 20)] 2 =
     Some ([\<lparr>f_date = 4, f_aqi = 10, lower_bound = -20, upper_bound = 40\<rparr>,
            \<lparr>f_date = 5, f_aqi = 10, lower_bound = -20, upper_bound = 40\<rparr>], Some ())"
    by (simp add: forecast_aqi_arima_def forecast_aqi_arima_body_def fit_ladder_def
        example_lib_def p d r forecast_frame_def)
  show ?thesis using h forecast_dates_consecutive[OF h] by simp
qed



text \<open>
  C1. The bounds \<open>0 \<le> lower_bound \<le> aqi \<le> upper_bound \<le> 500\<close> hold for every row of a
  forecast of the fallback (lemma \<open>simple_forecast_bounds\<close>). The ARIMA path has no clamp:
  it returns the point forecasts and the intervals of the fitted model as they are. For
  the series 5, 40, 3, 35, 4, 45, 2 on the days 1 to 7 and a horizon of 2 days the
  interval of the fitted model reaches below 0 on the second day, with a lower bound of
  about -8.77; the row returned for that day has this lower bound, whatever the other
  numbers of the model are.
\<close>

theorem arima_forecast_not_clamped:
  "forecast_aqi_arima True (fitted_lib [f1, f2] [(l1, u1), (- 8.77, u2)])
     [(1, 5), (2, 40), (3, 3), (4, 35), (5, 4), (6, 45), (7, 2)] 2 =
   Some ([\<lparr>f_date = 8, f_aqi = f1, lower_bound = l1, upper_bound = u1\<rparr>,
          \<lparr>f_date = 9, f_aqi = f2, lower_bound = - 8.77, upper_bound = u2\<rparr>], Some ())"
proof -
  have p: "prepare_ts [(1, 5), (2, 40), (3, 3), (4, 35), (5, 4), (6, 45), (7, 2)] =
      [(1, Some 5), (2, Some 40), (3, Some 3), (4, Some 35), (5, Some 4), (6, Some 45), (7, Some 2)]"
    by code_simp
  have d: "date_range 8 2 = [8, 9]" by code_simp
  show ?thesis
    by (simp add: forecast_aqi_arima_def forecast_aqi_arima_body_def fit_ladder_def
        fitted_lib_def p d forecast_frame_def)
qed

text \<open>
  C2. No error of the model fitting reaches the caller, and the fallback fails exactly
  when the regularized series has fewer than 7 days (lemma \<open>simple_none_iff\<close>). The ARIMA
  path does not check the length: with the library available and a fit that succeeds, a
  series of 6 regularized days gets a forecast, where the fallback alone returns none.
\<close>

theorem arima_short_series_not_rejected:
  "length (prepare_ts [(1, 50), (2, 55), (3, 60), (4, 58), (5, 62), (6, 65)]) = 6
   \<and> forecast_aqi_arima True example_lib
         [(1, 50), (2, 55), (3, 60), (4, 58), (5, 62), (6, 65)] 1 =
       Some ([\<lparr>f_date = 7, f_aqi = 10, lower_bound = -20, upper_bound = 40\<rparr>], Some ())
   \<and> forecast_aqi_arima False example_lib
         [(1, 50), (2, 55), (3, 60), (4, 58), (5, 62), (6, 65)] 1 = None"
proof -
  let ?df = "[(1, 50), (2, 55), (3, 60), (4, 58), (5, 62), (6, 65)] :: daily_series"
  have p: "prepare_ts ?df =
      [(1, Some 50), (2, Some 55), (3, Some 60), (4, Some 58), (5, Some 62), (6, Some 65)]"
    by code_simp
  have d: "date_range 7 (Suc 0) = [7]" by (simp add: date_range_def)
  have a: "forecast_aqi_arima True example_lib ?df 1 =
       Some ([\<lparr>f_date = 7, f_aqi = 10, lower_bound = -20, upper_bound = 40\<rparr>], Some ())"
    by (simp add: forecast_aqi_arima_def forecast_aqi_arima_body_def fit_ladder_def
        example_lib_def p d forecast_frame_def)
  have "forecast_aqi_simple ?df 1 = None"
    by (simp add: simple_none_iff p)
  then have b: "forecast_aqi_arima False example_lib ?df 1 = None"
    by (simp add: forecast_aqi_arima_def)
  show ?thesis using a b by (simp add: p)
qed

section \<open>Claims about the series preparer\<close>

text \<open>
  C5. With a city filter the preparer works on a copy and writes no table that existed
  before (lemma \<open>preprocess_with_filter_frame\<close>). Without a filter it assigns the filled
  AQI column to the table that \<open>load_full_dataset\<close> returned, which is the cached one.
  Here the cached dataset has a row without a city: after the call its AQI in the cache is
  100, the mean of the column, where it was 50.
\<close>

theorem preparer_writes_cached_table:
  "get_table 0 (loaded [delhi_row, nocity_row]) = Some [delhi_row, nocity_row]
   \<and> data_cache (snd (load_and_preprocess_data None None (loaded [delhi_row, nocity_row]))) = Some 0
   \<and> get_table 0 (snd (load_and_preprocess_data None None (loaded [delhi_row, nocity_row])))
       = Some [delhi_row, nocity_row\<lparr>aqi := Some 100\<rparr>]"
  by code_simp

text \<open>
  C7, as stated, fails for the empty city string: it is a string other than the sentinel
  and no row matches it, yet the preparer does not fail; it applies no filter and returns
  the whole table.
\<close>

theorem empty_city_string_not_filtered:
  "filter (city_mask []) [delhi_row] = []
   \<and> fst (load_and_preprocess_data None (Some []) (loaded [delhi_row])) = Some 1
   \<and> get_table 1 (snd (load_and_preprocess_data None (Some []) (loaded [delhi_row])))
       = Some [delhi_row]"
  by code_simp

text \<open>
  C7, amended. For every normalized table and every city string that is not empty and not
  the sentinel \<open>All Cities\<close>, the preparer fails if and only if no row has a city that
  equals the requested one after trimming white space on both sides and lowering the
  case. Otherwise the rows it keeps for its later steps are exactly the matching ones:
  the result is sorted by date and has the rows of the gap-filled, de-duplicated table of
  the matching rows, each as often as there; every row of the result matches, and the
  pairs of city and date of the result are those of the matching rows.
\<close>

theorem city_filter_exact:
  assumes "name \<noteq> []" and "name \<noteq> ''All Cities''"
    and "load_full_dataset csv s = (Some r, s1)" and "get_table r s1 = Some df"
  shows "(fst (load_and_preprocess_data csv (Some name) s) = None
            \<longleftrightarrow> \<not> (\<exists>row\<in>set df. city_mask name row))
       \<and> (\<forall>r'. fst (load_and_preprocess_data csv (Some name) s) = Some r' \<longrightarrow>
             (\<exists>out. get_table r' (snd (load_and_preprocess_data csv (Some name) s)) = Some out
                \<and> sorted (map date out)
                \<and> mset out = mset (drop_duplicates (filled_rows (filter (city_mask name) df)))
                \<and> (\<forall>row\<in>set out. city_mask name row)
                \<and> (\<lambda>row. (city row, date row)) ` set out
                     = (\<lambda>row. (city row, date row)) ` {row \<in> set df. city_mask name row}))"
proof -
  let ?F = "filter (city_mask name) df"
  let ?out = "sort_values_date (drop_duplicates (filled_rows ?F))"
  have eq: "load_and_preprocess_data csv (Some name) s = filter_city name r df s1"
    by (rule preprocess_with_filter[OF assms])
  have all: "\<forall>row\<in>set ?F. city_mask name row" by simp
  show ?thesis
  proof (cases "?F = []")
    case True
    then have "fst (filter_city name r df s1) = None" by (rule filter_city_none)
    moreover have "\<not> (\<exists>row\<in>set df. city_mask name row)"
      using True by (simp add: filter_empty_conv)
    ultimately show ?thesis unfolding eq by simp
  next
    case False
    have res: "fst (filter_city name r df s1) = Some (Suc (length (heap s1)))"
      by (rule filter_city_some(1)[OF False])
    have g: "get_table (Suc (length (heap s1))) (snd (filter_city name r df s1)) = Some ?out"
      by (simp add: get_table_def filter_city_some(2)[OF False] nth_append)
    have m: "\<forall>row\<in>set ?out. city_mask name row"
      by (rule prepared_rows_properties(1)[OF all])
    have so: "sorted (map date ?out)"
      by (rule prepared_rows_properties(3)[OF all])
    have ms: "mset ?out = mset (drop_duplicates (filled_rows ?F))"
      by (simp add: sort_values_date_def)
    have "set ?F = {row \<in> set df. city_mask name row}" by auto
    then have k: "(\<lambda>row. (city row, date row)) ` set ?out
        = (\<lambda>row. (city row, date row)) ` {row \<in> set df. city_mask name row}"
      using prepared_rows_properties(2)[OF all] by simp
    have "\<exists>row\<in>set df. city_mask name row"
      using False by (simp add: filter_empty_conv)
    then have A: "fst (filter_city name r df s1) = None
            \<longleftrightarrow> \<not> (\<exists>row\<in>set df. city_mask name row)"
      using res by simp
    have B: "\<forall>r'. fst (filter_city name r df s1) = Some r' \<longrightarrow>
             (\<exists>out. get_table r' (snd (filter_city name r df s1)) = Some out
                \<and> sorted (map date out)
                \<and> mset out = mset (drop_duplicates (filled_rows ?F))
                \<and> (\<forall>row\<in>set out. city_mask name row)
                \<and> (\<lambda>row. (city row, date row)) ` set out
                     = (\<lambda>row. (city row, date row)) ` {row \<in> set df. city_mask name row})"
    proof (intro allI impI)
      fix r' assume "fst (filter_city name r df s1) = Some r'"
      then have r': "r' = Suc (length (heap s1))" using res by simp
      show "\<exists>out. get_table r' (snd (filter_city name r df s1)) = Some out
                \<and> sorted (map date out)
                \<and> mset out = mset (drop_duplicates (filled_rows ?F))
                \<and> (\<forall>row\<in>set out. city_mask name row)
                \<and> (\<lambda>row. (city row, date row)) ` set out
                     = (\<lambda>row. (city row, date row)) ` {row \<in> set df. city_mask name row}"
        unfolding r' by (intro exI[of _ ?out] conjI g so ms m k)
    qed
    show ?thesis unfolding eq by (intro conjI A B)
  qed
qed

theorem city_filter_exact_witness:
  "'' DELHI'' \<noteq> [] \<and> '' DELHI'' \<noteq> ''All Cities''
   \<and> load_full_dataset None (loaded [delhi_row, mumbai_row]) = (Some 0, loaded [delhi_row, mumbai_row])
   \<and> get_table 0 (loaded [delhi_row, mumbai_row]) = Some [delhi_row, mumbai_row]
   \<and> filter (city_mask '' DELHI'') [delhi_row, mumbai_row] = [delhi_row]
   \<and> fst (load_and_preprocess_data None (Some '' DELHI'') (loaded [delhi_row, mumbai_row])) \<noteq> None"
proof -
  have h1: "'' DELHI'' \<noteq> []" by simp
  have h2: "'' DELHI'' \<noteq> ''All Cities''" by simp
  have h3: "load_full_dataset None (loaded [delhi_row, mumbai_row])
              = (Some 0, loaded [delhi_row, mumbai_row])"
    by (simp add: load_full_dataset_def loaded_def)
  have h4: "get_table 0 (loaded [delhi_row, mumbai_row]) = Some [delhi_row, mumbai_row]"
    by (simp add: get_table_def loaded_def)
  have f: "filter (city_mask '' DELHI'') [delhi_row, mumbai_row] = [delhi_row]"
    by code_simp
  have m: "city_mask '' DELHI'' delhi_row" by code_simp
  have ex: "\<exists>row\<in>set [delhi_row, mumbai_row]. city_mask '' DELHI'' row"
    by (rule bexI[of _ delhi_row]) (simp_all add: m)
  have "fst (load_and_preprocess_data None (Some '' DELHI'') (loaded [delhi_row, mumbai_row])) \<noteq> None"
    using conjunct1[OF city_filter_exact[OF h1 h2 h3 h4]] ex by simp
  then show ?thesis by (intro conjI h1 h2 h3 h4 f)
qed

section \<open>Claims about the aggregator\<close>

text \<open>
  C8. The monthly aggregation of a prepared table returns a list that is sorted ascending
  by date, with no date twice, and has exactly one entry for every pair of year and month
  that occurs among the dates of the table: its date is the one assembled from that year,
  that month and day 1, which is the first day of that month, and its AQI is the
  arithmetic mean of the values of the rows of that month.
\<close>

theorem monthly_aggregation:
  assumes "get_table r s = Some df"
  shows "\<exists>out. fst (calculate_monthly_aqi r s) = Some out
           \<and> sorted (map fst out) \<and> distinct (map fst out)
           \<and> mset out =
               image_mset (\<lambda>(y, m). (days_from_civil y m 1,
                   mean_skipna (map aqi (filter (\<lambda>row. year_of (date row) = y \<and> month_of (date row) = m) df))))
                 (mset_set ((\<lambda>row. (year_of (date row), month_of (date row))) ` set df))
           \<and> (\<forall>e\<in>set out. day_of (fst e) = 1
                 \<and> (\<exists>row\<in>set df. year_of (fst e) = year_of (date row)
                                    \<and> month_of (fst e) = month_of (date row))
                 \<and> snd e = mean_skipna (map aqi (filter
                      (\<lambda>row. year_of (date row) = year_of (fst e)
                            \<and> month_of (date row) = month_of (fst e)) df)))"
proof -
  let ?out = "monthly_frame (with_year_month df)"
  have r: "fst (calculate_monthly_aqi r s) = Some ?out"
    by (rule calculate_monthly_aqi_result(1)[OF assms])
  have s: "sorted (map fst ?out)" by (rule monthly_frame_sorted)
  have d: "distinct (map fst ?out)" by (rule monthly_frame_distinct)
  have e: "\<forall>e\<in>set ?out. day_of (fst e) = 1
                 \<and> (\<exists>row\<in>set df. year_of (fst e) = year_of (date row)
                                    \<and> month_of (fst e) = month_of (date row))
                 \<and> snd e = mean_skipna (map aqi (filter
                      (\<lambda>row. year_of (date row) = year_of (fst e)
                            \<and> month_of (date row) = month_of (fst e)) df))"
    using monthly_frame_entries[of _ df] by blast
  show ?thesis by (intro exI[of _ ?out] conjI r s d monthly_frame_mset e)
qed

theorem monthly_aggregation_witness:
  "get_table 0 (loaded [delhi_row, mumbai_row, delhi_feb_row]) = Some [delhi_row, mumbai_row, delhi_feb_row]
   \<and> fst (calculate_monthly_aqi 0 (loaded [delhi_row, mumbai_row, delhi_feb_row]))
        = Some [(18262, Some 90), (18293, Some 60)]
   \<and> (\<exists>out. fst (calculate_monthly_aqi 0 (loaded [delhi_row, mumbai_row, delhi_feb_row])) = Some out
           \<and> sorted (map fst out) \<and> distinct (map fst out)
           \<and> mset out =
               image_mset (\<lambda>(y, m). (days_from_civil y m 1,
                   mean_skipna (map aqi (filter (\<lambda>row. year_of (date row) = y \<and> month_of (date row) = m)
                      [delhi_row, mumbai_row, delhi_feb_row]))))
                 (mset_set ((\<lambda>row. (year_of (date row), month_of (date row)))
                    ` set [delhi_row, mumbai_row, delhi_feb_row])))"
proof -
  have h: "get_table 0 (loaded [delhi_row, mumbai_row, delhi_feb_row])
             = Some [delhi_row, mumbai_row, delhi_feb_row]"
    by (simp add: get_table_def loaded_def)
  have e: "fst (calculate_monthly_aqi 0 (loaded [delhi_row, mumbai_row, delhi_feb_row]))
        = Some [(18262, Some 90), (18293, Some 60)]"
    by code_simp
  obtain out where out: "fst (calculate_monthly_aqi 0 (loaded [delhi_row, mumbai_row, delhi_feb_row])) = Some out"
    "sorted (map fst out)" "distinct (map fst out)"
    "mset out =
               image_mset (\<lambda>(y, m). (days_from_civil y m 1,
                   mean_skipna (map aqi (filter (\<lambda>row. year_of (date row) = y \<and> month_of (date row) = m)
                      [delhi_row, mumbai_row, delhi_feb_row]))))
                 (mset_set ((\<lambda>row. (year_of (date row), month_of (date row)))
                    ` set [delhi_row, mumbai_row, delhi_feb_row]))"
    using monthly_aggregation[OF h] by blast
  show ?thesis by (intro conjI h e exI[of _ out] out)
qed

text \<open>
  C9. The aggregator is pure. The daily aggregation returns a value that depends on the
  rows of its table only and leaves the state as it is; the monthly aggregation works on
  a copy, so that every table object that existed before the call, the argument among
  them, and the cache variable are unchanged after it. A second call on the same table
  therefore returns the same result as the first.
\<close>

theorem aggregator_is_pure:
  assumes "get_table r s = Some df"
  shows "fst (calculate_daily_aqi r s) = Some (daily_frame df)
       \<and> snd (calculate_daily_aqi r s) = s
       \<and> fst (calculate_daily_aqi r (snd (calculate_daily_aqi r s))) = fst (calculate_daily_aqi r s)
       \<and> fst (calculate_monthly_aqi r s) = Some (monthly_frame (with_year_month df))
       \<and> take (length (heap s)) (heap (snd (calculate_monthly_aqi r s))) = heap s
       \<and> data_cache (snd (calculate_monthly_aqi r s)) = data_cache s
       \<and> get_table r (snd (calculate_monthly_aqi r s)) = Some df
       \<and> fst (calculate_monthly_aqi r (snd (calculate_monthly_aqi r s))) = fst (calculate_monthly_aqi r s)"
proof -
  have d: "calculate_daily_aqi r s = (Some (daily_frame df), s)"
    by (rule calculate_daily_aqi_result[OF assms])
  have m1: "fst (calculate_monthly_aqi r s) = Some (monthly_frame (with_year_month df))"
    by (rule calculate_monthly_aqi_result(1)[OF assms])
  have m2: "heap (snd (calculate_monthly_aqi r s)) = heap s @ [with_year_month df]"
    by (rule calculate_monthly_aqi_result(2)[OF assms])
  have m3: "data_cache (snd (calculate_monthly_aqi r s)) = data_cache s"
    by (rule calculate_monthly_aqi_result(3)[OF assms])
  have g: "get_table r (snd (calculate_monthly_aqi r s)) = Some df"
    by (rule get_table_append[OF assms m2])
  have m4: "fst (calculate_monthly_aqi r (snd (calculate_monthly_aqi r s)))
              = Some (monthly_frame (with_year_month df))"
    by (rule calculate_monthly_aqi_result(1)[OF g])
  have t: "take (length (heap s)) (heap (snd (calculate_monthly_aqi r s))) = heap s"
    unfolding m2 by simp
  have d1: "fst (calculate_daily_aqi r s) = Some (daily_frame df)"
    and d2: "snd (calculate_daily_aqi r s) = s" by (simp_all add: d)
  have d3: "fst (calculate_daily_aqi r (snd (calculate_daily_aqi r s))) = fst (calculate_daily_aqi r s)"
    unfolding d2 ..
  have m5: "fst (calculate_monthly_aqi r (snd (calculate_monthly_aqi r s)))
              = fst (calculate_monthly_aqi r s)"
    unfolding m4 m1 ..
  show ?thesis by (intro conjI d1 d2 d3 m1 t m3 g m5)
qed

theorem aggregator_is_pure_witness:
  "get_table 0 (loaded [delhi_row, mumbai_row, delhi_feb_row]) = Some [delhi_row, mumbai_row, delhi_feb_row]
   \<and> fst (calculate_daily_aqi 0 (loaded [delhi_row, mumbai_row, delhi_feb_row]))
        = Some [(18262, Some 90), (18307, Some 60)]
   \<and> fst (calculate_daily_aqi 0 (snd (calculate_daily_aqi 0 (loaded [delhi_row, mumbai_row, delhi_feb_row]))))
        = fst (calculate_daily_aqi 0 (loaded [delhi_row, mumbai_row, delhi_feb_row]))
   \<and> get_table 0 (snd (calculate_monthly_aqi 0 (loaded [delhi_row, mumbai_row, delhi_feb_row])))
        = Some [delhi_row, mumbai_row, delhi_feb_row]
   \<and> fst (calculate_monthly_aqi 0 (snd (calculate_monthly_aqi 0 (loaded [delhi_row, mumbai_row, delhi_feb_row]))))
        = fst (calculate_monthly_aqi 0 (loaded [delhi_row, mumbai_row, delhi_feb_row]))"
proof -
  have h: "get_table 0 (loaded [delhi_row, mumbai_row, delhi_feb_row])
             = Some [delhi_row, mumbai_row, delhi_feb_row]"
    by (simp add: get_table_def loaded_def)
  have e: "fst (calculate_daily_aqi 0 (loaded [delhi_row, mumbai_row, delhi_feb_row]))
        = Some [(18262, Some 90), (18307, Some 60)]"
    by code_simp
  note T = aggregator_is_pure[OF h]
  show ?thesis using T by (intro conjI h e) simp_all
qed

end
